theory Spec2Isabelle
  imports Main "HOL-Library.Word"
begin

section \<open>The agent worker of \<^verbatim>\<open>agent/agent_worker.go\<close>\<close>

text \<open>
  The worker is embedded with explicit state passing. Every field of the Go struct
  \<^verbatim>\<open>AgentWorker\<close> that the lifecycle reads or writes is a field of the record
  \<open>AgentWorker\<close>; what the worker does to its collaborators (the logger, the process
  title, the remote API, the job runner, the timers, the stop channel) is appended, in
  program order, to the field \<open>effects\<close>. What the collaborators answer (API replies,
  the clock, the job runner's results) is an input of the function that asks. A Go panic
  is an outcome of its own, carrying the state reached when it was raised. The logger, the
  metrics collector and the metrics scope are collaborators and hold no state of the
  lifecycle; the field \<open>tasks\<close> is not a field of the struct: it lists the goroutines that
  \<^verbatim>\<open>Start\<close> has spawned and that have not returned.

  Go's \<^verbatim>\<open>int\<close> and \<^verbatim>\<open>int64\<close> are 64-bit words (a 64-bit platform), read as two's
  complement; \<^verbatim>\<open>time.Duration\<close> is an \<^verbatim>\<open>int64\<close> count of nanoseconds.
\<close>

subsection \<open>Time\<close>

type_synonym goint = "64 word"
type_synonym duration = "64 word"

text \<open>\<^verbatim>\<open>time.Second * time.Duration(n)\<close>: the product wraps around as \<^verbatim>\<open>int64\<close> does.\<close>

definition Second :: duration where
  "Second = 1000000000"

definition seconds :: "goint \<Rightarrow> duration" where
  "seconds n = Second * n"

text \<open>
  A \<^verbatim>\<open>time.Time\<close> is the number of nanoseconds since the Unix epoch. \<open>time_Unix sec\<close> is
  \<^verbatim>\<open>time.Unix(sec, 0)\<close>, \<open>Unix t\<close> is \<^verbatim>\<open>t.Unix()\<close>, and \<open>Sub t u\<close> is \<^verbatim>\<open>t.Sub(u)\<close>, which
  saturates at the largest and smallest \<^verbatim>\<open>Duration\<close>.
\<close>

type_synonym Time = int

definition time_Unix :: "goint \<Rightarrow> Time" where
  "time_Unix sec = sint sec * 1000000000"

definition Unix :: "Time \<Rightarrow> goint" where
  "Unix t = word_of_int (t div 1000000000)"

definition Sub :: "Time \<Rightarrow> Time \<Rightarrow> duration" where
  "Sub t u =
     (if t - u > 9223372036854775807 then word_of_int 9223372036854775807
      else if t - u < - 9223372036854775808 then word_of_int (- 9223372036854775808)
      else word_of_int (t - u))"

subsection \<open>The data model\<close>

datatype error = Err string

record AgentRegisterResponse =
  Name :: string
  AccessToken :: string
  Agent_Endpoint :: string
  PingInterval :: goint
  HeartbeatInterval :: goint

datatype JobRunnerConfig = MkJobRunnerConfig nat

record AgentWorkerConfig =
  Debug :: bool
  Conf_Endpoint :: string
  Conf_DisableHTTP2 :: bool
  DisconnectAfterJob :: bool
  DisconnectAfterJobTimeout :: goint
  DisconnectAfterIdleTimeout :: goint
  Conf_JobRunnerConfig :: JobRunnerConfig

text \<open>
  Modelled from the spec: \<^verbatim>\<open>NewAPIClient\<close> (not among the sources), the constructor of the
  remote client, to which the endpoint, the credential and \<^verbatim>\<open>DisableHTTP2\<close> are forwarded.
  A client is represented by the \<^verbatim>\<open>APIClientConfig\<close> it was constructed from; a field the
  composite literal leaves out has Go's zero value.
\<close>

record APIClientConfig =
  Endpoint :: string
  Token :: string
  DisableHTTP2 :: bool

definition NewAPIClient :: "APIClientConfig \<Rightarrow> APIClientConfig" where
  "NewAPIClient c = c"

record api_Job =
  ID :: string
  Env :: "(string \<times> string) list"

record api_Ping =
  Ping_Endpoint :: string
  Message :: string
  Action :: string
  Job :: "api_Job option"

record api_Heartbeat =
  SentAt :: string
  ReceivedAt :: string

text \<open>A job runner is opaque to the worker: a handle.\<close>

datatype JobRunner = MkJobRunner nat

text \<open>
  A \<^verbatim>\<open>*time.Timer\<close> and a \<^verbatim>\<open>*time.Ticker\<close>: the duration last set and whether it is
  running. A \<^verbatim>\<open>chan struct{}\<close> that is only ever closed: nil, open or closed.
\<close>

datatype timer = Timer duration bool

datatype chan = NilChan | Open | Closed

datatype timer_name = TheDisconnectTimeoutTimer | TheIdleTimer

text \<open>The goroutines \<^verbatim>\<open>Start\<close> spawns, in the order of the source.\<close>

datatype task = Heartbeater | DisconnectWatcher | IdleWatcher

datatype level = DebugLevel | InfoLevel | WarnLevel | ErrorLevel

datatype arg = ArgStr string | ArgInt goint | ArgDur duration | ArgErr error | ArgStats nat

datatype event =
    Log level string "arg list"
  | ProcTitle string
  | CloseStop
  | Cancel JobRunner
  | Run JobRunner
  | PingsGet APIClientConfig
  | HeartbeatsBeat APIClientConfig
  | JobsAccept APIClientConfig api_Job
  | CallNewJobRunner "(string \<times> string) list" api_Job JobRunnerConfig
  | TimerNew timer_name duration
  | TimerReset timer_name duration
  | TimerStop timer_name
  | TickerNew duration
  | TickerTick
  | TickerStop
  | MetricsStart
  | MetricsStop

datatype panic =
    CloseOfClosedChannel
  | CloseOfNilChannel
  | NilPointerDereference
  | NonPositiveTickerInterval

record AgentWorker =
  lastPing :: goint
  lastHeartbeat :: goint
  conf :: AgentWorkerConfig
  apiClient :: APIClientConfig
  agent :: AgentRegisterResponse
  debug :: bool
  running :: bool
  ticker :: "timer option"
  disconnectTimeoutTimer :: "timer option"
  idleTimer :: "timer option"
  stop :: chan
  stopping :: bool
  jobRunner :: "JobRunner option"
  tasks :: "task list"
  effects :: "event list"

datatype 'r outcome = Return 'r AgentWorker | Panic panic AgentWorker

fun final :: "'r outcome \<Rightarrow> AgentWorker" where
  "final (Return r a) = a"
| "final (Panic p a) = a"

subsection \<open>Effects\<close>

definition emit :: "event \<Rightarrow> AgentWorker \<Rightarrow> AgentWorker" where
  "emit e a = a\<lparr>effects := effects a @ [e]\<rparr>"

definition logger :: "level \<Rightarrow> string \<Rightarrow> arg list \<Rightarrow> AgentWorker \<Rightarrow> AgentWorker" where
  "logger l fmt args a = emit (Log l fmt args) a"

text \<open>
  \<^verbatim>\<open>UpdateProcTitle(action)\<close> replaces the process title by
  \<^verbatim>\<open>buildkite-agent v<Version()> [<action>]\<close>; \<^verbatim>\<open>Version\<close> is not among the sources, so the
  effect records the action.
\<close>

definition UpdateProcTitle :: "string \<Rightarrow> AgentWorker \<Rightarrow> AgentWorker" where
  "UpdateProcTitle action a = emit (ProcTitle action) a"

subsection \<open>NewAgentWorker\<close>

definition NewAgentWorker :: "AgentRegisterResponse \<Rightarrow> AgentWorkerConfig \<Rightarrow> AgentWorker" where
  "NewAgentWorker a c =
     (let endpoint = (if Agent_Endpoint a \<noteq> [] then Agent_Endpoint a else Conf_Endpoint c);
          client = NewAPIClient
            \<lparr>Endpoint = endpoint, Token = AccessToken a, DisableHTTP2 = Conf_DisableHTTP2 c\<rparr>
      in \<lparr>lastPing = 0, lastHeartbeat = 0, conf = c, apiClient = client, agent = a,
          debug = Debug c, running = False, ticker = None, disconnectTimeoutTimer = None,
          idleTimer = None, stop = Open, stopping = False, jobRunner = None, tasks = [],
          effects = []\<rparr>)"

subsection \<open>Stop and stopIfIdle\<close>

text \<open>
  \<^verbatim>\<open>Stop\<close> holds \<^verbatim>\<open>stopMutex\<close> from entry to return, so one call is one step. Closing a
  closed or a nil channel panics in Go.
\<close>

definition Stop :: "bool \<Rightarrow> AgentWorker \<Rightarrow> unit outcome" where
  "Stop graceful a =
     (let a1 =
        (if graceful then
           (if stopping a then
              logger WarnLevel ''Agent is already gracefully stopping...'' [] a
            else if jobRunner a \<noteq> None then
              logger InfoLevel ''Gracefully stopping agent. Waiting for current job to finish before disconnecting...'' [] a
            else
              logger InfoLevel ''Gracefully stopping agent. Since there is no job running, the agent will disconnect immediately'' [] a)
         else
           (case jobRunner a of
              Some r \<Rightarrow>
                emit (Cancel r)
                  (logger InfoLevel ''Forcefully stopping agent. The current job will be canceled before disconnecting...'' [] a)
            | None \<Rightarrow>
                logger InfoLevel ''Forcefully stopping agent. Since there is no job running, the agent will disconnect immediately'' [] a))
      in if stopping a1 then Return () a1
         else
           (let a2 = UpdateProcTitle ''stopping'' a1
            in case stop a2 of
                 NilChan \<Rightarrow> Panic CloseOfNilChannel a2
               | Closed \<Rightarrow> Panic CloseOfClosedChannel a2
               | Open \<Rightarrow> Return () ((emit CloseStop a2)\<lparr>stop := Closed, stopping := True\<rparr>)))"

definition stopIfIdle :: "AgentWorker \<Rightarrow> unit outcome" where
  "stopIfIdle a =
     (if jobRunner a = None \<and> \<not> stopping a then Stop True a
      else Return () (logger DebugLevel ''Agent is running a job, going to let it finish it's work'' [] a))"

subsection \<open>The retry harness\<close>

text \<open>
  Modelled from the spec: \<^verbatim>\<open>retry.Do\<close> (package \<^verbatim>\<open>retry\<close> is not among the sources). The spec:
  invoke the thunk up to N times; each call receives the attempt index and may \<^verbatim>\<open>Break()\<close>;
  the last observed error is returned, or nil on success. The thunk is a function of the
  attempt index and its state that returns its error, whether it broke out, and its state.
  The sleep between attempts is not modelled.
\<close>

fun retry_attempts ::
  "nat \<Rightarrow> nat \<Rightarrow> (nat \<Rightarrow> 's \<Rightarrow> error option \<times> bool \<times> 's) \<Rightarrow> 's \<Rightarrow> error option \<times> 's" where
  "retry_attempts 0 i f s = (case f i s of (e, brk, s') \<Rightarrow> (e, s'))"
| "retry_attempts (Suc n) i f s =
     (case f i s of
        (None, brk, s') \<Rightarrow> (None, s')
      | (Some e, brk, s') \<Rightarrow> if brk then (Some e, s') else retry_attempts n (Suc i) f s')"

definition retry_Do ::
  "nat \<Rightarrow> (nat \<Rightarrow> 's \<Rightarrow> error option \<times> bool \<times> 's) \<Rightarrow> 's \<Rightarrow> error option \<times> 's" where
  "retry_Do maximum f s = retry_attempts (maximum - 1) 0 f s"

subsection \<open>Heartbeat and the heartbeat goroutine\<close>

text \<open>
  What one call of \<^verbatim>\<open>Heartbeat\<close> (or one round of the heartbeat goroutine) is answered:
  the reply of \<^verbatim>\<open>Heartbeats.Beat\<close> at each attempt and the clock. \<^verbatim>\<open>time.Now\<close> is read once
  on either path: by \<^verbatim>\<open>Heartbeat\<close> on success, by the goroutine's log line on failure.
\<close>

record HeartbeatEnv =
  beats :: "nat \<Rightarrow> error + api_Heartbeat"
  hb_now :: Time

definition beat_attempt ::
  "HeartbeatEnv \<Rightarrow> nat \<Rightarrow> api_Heartbeat option \<times> AgentWorker \<Rightarrow>
     error option \<times> bool \<times> (api_Heartbeat option \<times> AgentWorker)" where
  "beat_attempt env i s =
     (let a = emit (HeartbeatsBeat (apiClient (snd s))) (snd s)
      in case beats env i of
           Inl err \<Rightarrow> (Some err, False, (None, logger WarnLevel ''%s (%s)'' [ArgErr err, ArgStats i] a))
         | Inr beat \<Rightarrow> (None, False, (Some beat, a)))"

definition Heartbeat :: "HeartbeatEnv \<Rightarrow> AgentWorker \<Rightarrow> (error option) outcome" where
  "Heartbeat env a =
     (case retry_Do 5 (beat_attempt env) (None, a) of
        (Some err, (beat, a1)) \<Rightarrow> Return (Some err) a1
      | (None, (None, a1)) \<Rightarrow> Panic NilPointerDereference (a1\<lparr>lastHeartbeat := Unix (hb_now env)\<rparr>)
      | (None, (Some beat, a1)) \<Rightarrow>
          Return None
            (logger DebugLevel ''Heartbeat sent at %s and received at %s''
               [ArgStr (SentAt beat), ArgStr (ReceivedAt beat)]
               (a1\<lparr>lastHeartbeat := Unix (hb_now env)\<rparr>)))"

text \<open>
  The branch \<^verbatim>\<open>case <-time.After(heartbeatInterval)\<close> of the heartbeat goroutine.
  \<^verbatim>\<open>heartbeatInterval\<close> is the local of \<^verbatim>\<open>Start\<close> the closure captures; the descriptor's
  heartbeat interval never changes after registration, so it is read from the state.
\<close>

definition heartbeat_due :: "HeartbeatEnv \<Rightarrow> AgentWorker \<Rightarrow> unit outcome" where
  "heartbeat_due env a =
     (let heartbeatInterval = seconds (HeartbeatInterval (agent a))
      in case Heartbeat env a of
           Panic p a1 \<Rightarrow> Panic p a1
         | Return None a1 \<Rightarrow> Return () a1
         | Return (Some err) a1 \<Rightarrow>
             (let lastHeartbeat = time_Unix (lastPing a1)
              in Return ()
                   (logger ErrorLevel
                      ''Failed to heartbeat %s. Will try again in %s. (Last successful was %v ago)''
                      [ArgErr err, ArgDur heartbeatInterval, ArgDur (Sub (hb_now env) lastHeartbeat)]
                      a1)))"

subsection \<open>The other tasks\<close>

text \<open>
  What the tasks other than the ping loop do to the worker. Each is taken as one step, at
  a point where the ping loop is suspended (inside \<^verbatim>\<open>Run\<close>, or in its \<^verbatim>\<open>select\<close>): an
  operator's call of \<^verbatim>\<open>Stop\<close>, a round of the heartbeat goroutine, the disconnect timer or
  the idle timer firing, and the goroutines leaving on the closed stop channel. A step
  that cannot be taken in the state (its goroutine is gone, its timer is not running, the
  channel is not closed) leaves the state as it is.
\<close>

datatype conc =
    CallStop bool
  | HeartbeatDue HeartbeatEnv
  | HeartbeaterLeaves
  | DisconnectTimerFires
  | IdleTimerFires
  | IdleWatcherLeaves

definition running_timer :: "timer option \<Rightarrow> bool" where
  "running_timer t = (case t of Some (Timer d True) \<Rightarrow> True | _ \<Rightarrow> False)"

text \<open>A timer or ticker that has fired for good or has been stopped is no longer running.\<close>

definition halted :: "timer option \<Rightarrow> timer option" where
  "halted t = (case t of Some (Timer d r) \<Rightarrow> Some (Timer d False) | None \<Rightarrow> None)"

fun conc_step :: "conc \<Rightarrow> AgentWorker \<Rightarrow> unit outcome" where
  "conc_step (CallStop graceful) a = Stop graceful a"
| "conc_step (HeartbeatDue env) a =
     (if Heartbeater \<in> set (tasks a) then heartbeat_due env a else Return () a)"
| "conc_step HeartbeaterLeaves a =
     (if Heartbeater \<in> set (tasks a) \<and> stop a = Closed then
        Return () ((logger DebugLevel ''Stopping heartbeats'' [] a)
                    \<lparr>tasks := removeAll Heartbeater (tasks a)\<rparr>)
      else Return () a)"
| "conc_step DisconnectTimerFires a =
     (if DisconnectWatcher \<in> set (tasks a) \<and> running_timer (disconnectTimeoutTimer a) then
        stopIfIdle
          (logger DebugLevel ''[DisconnectionTimer] Reached %d seconds...''
             [ArgInt (DisconnectAfterJobTimeout (conf a))]
             (a\<lparr>disconnectTimeoutTimer := halted (disconnectTimeoutTimer a),
                tasks := removeAll DisconnectWatcher (tasks a)\<rparr>))
      else Return () a)"
| "conc_step IdleTimerFires a =
     (if IdleWatcher \<in> set (tasks a) \<and> running_timer (idleTimer a) then
        stopIfIdle
          (logger InfoLevel ''Agent has been idle for %d seconds''
             [ArgInt (DisconnectAfterIdleTimeout (conf a))]
             (a\<lparr>idleTimer := halted (idleTimer a)\<rparr>))
      else Return () a)"
| "conc_step IdleWatcherLeaves a =
     (if IdleWatcher \<in> set (tasks a) \<and> stop a = Closed then
        Return () ((logger DebugLevel ''Stopping the idle ticker'' [] a)
                    \<lparr>tasks := removeAll IdleWatcher (tasks a)\<rparr>)
      else Return () a)"

fun concurrently :: "conc list \<Rightarrow> AgentWorker \<Rightarrow> unit outcome" where
  "concurrently [] a = Return () a"
| "concurrently (c # cs) a =
     (case conc_step c a of
        Panic p a1 \<Rightarrow> Panic p a1
      | Return u a1 \<Rightarrow> concurrently cs a1)"

subsection \<open>Ping\<close>

text \<open>
  What one call of \<^verbatim>\<open>Ping\<close> is answered: the reply of \<^verbatim>\<open>Pings.Get\<close> on the worker's client
  and on the client of a new endpoint, the clock, the reply of \<^verbatim>\<open>Jobs.Accept\<close> at each
  attempt (with \<^verbatim>\<open>api.IsRetryableError\<close> of its error), the pair \<^verbatim>\<open>NewJobRunner\<close> returns,
  the steps the other tasks take while \<^verbatim>\<open>Run\<close> blocks, and the error \<^verbatim>\<open>Run\<close> returns.
  \<^verbatim>\<open>Pings.Get\<close> returns an error or a ping; \<^verbatim>\<open>Jobs.Accept\<close> and \<^verbatim>\<open>NewJobRunner\<close> return a
  pointer and an error, each of which may be nil.
\<close>

record AcceptReply =
  reply_job :: "api_Job option"
  reply_err :: "error option"
  reply_retryable :: bool

record PingEnv =
  pings_get :: "error + api_Ping"
  now :: Time
  probe_get :: "error + api_Ping"
  jobs_accept :: "nat \<Rightarrow> AcceptReply"
  new_job_runner :: "JobRunner option \<times> error option"
  during_run :: "conc list"
  run_result :: "error option"

text \<open>The transport failure of lines 329 to 347, up to the \<^verbatim>\<open>return\<close>.\<close>

definition ping_failed :: "PingEnv \<Rightarrow> error \<Rightarrow> AgentWorker \<Rightarrow> AgentWorker" where
  "ping_failed env err a =
     (let lastPing' = time_Unix (lastPing a);
          a1 = logger WarnLevel ''Failed to ping: %s (Last successful was %v ago)''
                 [ArgErr err, ArgDur (Sub (now env) lastPing')] a
      in if disconnectTimeoutTimer a1 \<noteq> None then
           (let jobTimeoutSeconds = seconds (DisconnectAfterJobTimeout (conf a1));
                a2 = (emit (TimerReset TheDisconnectTimeoutTimer jobTimeoutSeconds) a1)
                       \<lparr>disconnectTimeoutTimer := Some (Timer jobTimeoutSeconds True)\<rparr>
            in logger DebugLevel
                 ''[DisconnectionTimer] Reset back to %d seconds because of ping failure...''
                 [ArgInt (DisconnectAfterJobTimeout (conf a2))] a2)
         else a1)"

text \<open>The endpoint switch of lines 354 to 372: the ping to go on with, and the state.\<close>

definition switch_endpoint :: "PingEnv \<Rightarrow> api_Ping \<Rightarrow> AgentWorker \<Rightarrow> api_Ping \<times> AgentWorker" where
  "switch_endpoint env ping a =
     (if Ping_Endpoint ping \<noteq> [] \<and> Ping_Endpoint ping \<noteq> Agent_Endpoint (agent a) then
        (let newAPIClient = NewAPIClient
               \<lparr>Endpoint = Ping_Endpoint ping, Token = AccessToken (agent a), DisableHTTP2 = False\<rparr>;
             a1 = emit (PingsGet newAPIClient) a
         in case probe_get env of
              Inl err \<Rightarrow>
                (ping,
                 logger WarnLevel
                   ''Failed to ping the new endpoint %s - ignoring switch for now (%s)''
                   [ArgStr (Ping_Endpoint ping), ArgErr err] a1)
            | Inr newPing \<Rightarrow>
                (newPing,
                 a1\<lparr>apiClient := newAPIClient,
                    agent := (agent a1)\<lparr>Agent_Endpoint := Ping_Endpoint ping\<rparr>\<rparr>))
      else (ping, a))"

text \<open>The thunk handed to \<^verbatim>\<open>retry.Do\<close> at lines 402 to 415; its state is \<^verbatim>\<open>accepted\<close> and the worker.\<close>

definition accept_attempt ::
  "PingEnv \<Rightarrow> api_Job \<Rightarrow> nat \<Rightarrow> api_Job option \<times> AgentWorker \<Rightarrow>
     error option \<times> bool \<times> (api_Job option \<times> AgentWorker)" where
  "accept_attempt env job i s =
     (let a = emit (JobsAccept (apiClient (snd s)) job) (snd s);
          accepted = reply_job (jobs_accept env i)
      in case reply_err (jobs_accept env i) of
           None \<Rightarrow> (None, False, (accepted, a))
         | Some err \<Rightarrow>
             if reply_retryable (jobs_accept env i) then
               (Some err, False,
                (accepted, logger WarnLevel ''%s (%s)'' [ArgErr err, ArgStats i] a))
             else
               (Some err, True,
                (accepted,
                 logger WarnLevel ''Buildkite rejected the call to accept the job (%s)''
                   [ArgErr err] a)))"

text \<open>A Go map read of a missing key gives the empty string.\<close>

definition env_get :: "(string \<times> string) list \<Rightarrow> string \<Rightarrow> string" where
  "env_get m k = (case map_of m k of None \<Rightarrow> [] | Some v \<Rightarrow> v)"

text \<open>Lines 453 to 468: what follows a job that ran.\<close>

definition after_job :: "AgentWorker \<Rightarrow> unit outcome" where
  "after_job a =
     (case
        (if DisconnectAfterJob (conf a) then
           (let a1 = logger InfoLevel ''Job finished. Disconnecting...'' [] a;
                a2 = (case disconnectTimeoutTimer a1 of
                        None \<Rightarrow> a1
                      | Some (Timer d r) \<Rightarrow>
                          (emit (TimerStop TheDisconnectTimeoutTimer) a1)
                            \<lparr>disconnectTimeoutTimer := Some (Timer d False)\<rparr>)
            in Stop True a2)
         else Return () a)
      of
        Panic p a3 \<Rightarrow> Panic p a3
      | Return u a3 \<Rightarrow>
          if 0 <s DisconnectAfterIdleTimeout (conf a3) then
            (let a4 = logger InfoLevel ''Job finished. Resetting idle timer...'' [] a3
             in case idleTimer a4 of
                  None \<Rightarrow> Panic NilPointerDereference a4
                | Some t \<Rightarrow>
                    Return ()
                      ((emit (TimerReset TheIdleTimer
                                (seconds (DisconnectAfterIdleTimeout (conf a4)))) a4)
                         \<lparr>idleTimer :=
                            Some (Timer (seconds (DisconnectAfterIdleTimeout (conf a4))) True)\<rparr>))
          else Return () a3)"

text \<open>
  Lines 423 to 451: the job runner is made, the disconnect timer stopped, the job run.
  A nil runner returned with a nil error makes \<^verbatim>\<open>a.jobRunner.Run()\<close> dereference nil.
  The metrics scope is represented by its four tags.
\<close>

definition run_job :: "PingEnv \<Rightarrow> api_Job \<Rightarrow> AgentWorker \<Rightarrow> unit outcome" where
  "run_job env accepted a =
     (let jobMetricsScope =
            [(''pipeline'', env_get (Env accepted) ''BUILDKITE_PIPELINE_SLUG''),
             (''org'', env_get (Env accepted) ''BUILDKITE_ORGANIZATION_SLUG''),
             (''branch'', env_get (Env accepted) ''BUILDKITE_BRANCH''),
             (''source'', env_get (Env accepted) ''BUILDKITE_SOURCE'')];
          a1 = (emit (CallNewJobRunner jobMetricsScope accepted (Conf_JobRunnerConfig (conf a))) a)
                 \<lparr>jobRunner := fst (new_job_runner env)\<rparr>;
          a2 = (case disconnectTimeoutTimer a1 of
                  None \<Rightarrow> a1
                | Some (Timer d r) \<Rightarrow>
                    (emit (TimerStop TheDisconnectTimeoutTimer)
                       (logger DebugLevel
                          ''[DisconnectionTimer] A job was assigned and accepted, stopping timer...''
                          [] a1))
                      \<lparr>disconnectTimeoutTimer := Some (Timer d False)\<rparr>)
      in case snd (new_job_runner env) of
           Some err \<Rightarrow> Return () (logger ErrorLevel ''Failed to initialize job: %s'' [ArgErr err] a2)
         | None \<Rightarrow>
             (case jobRunner a2 of
                None \<Rightarrow> Panic NilPointerDereference a2
              | Some r \<Rightarrow>
                  (case concurrently (during_run env) (emit (Run r) a2) of
                     Panic p a3 \<Rightarrow> Panic p a3
                   | Return u a3 \<Rightarrow>
                       (let a4 = (case run_result env of
                                    Some err \<Rightarrow>
                                      logger ErrorLevel ''Failed to run job: %s'' [ArgErr err] a3
                                  | None \<Rightarrow> a3)
                        in after_job (a4\<lparr>jobRunner := None\<rparr>)))))"

text \<open>Lines 393 to 421, then \<open>run_job\<close>. \<^verbatim>\<open>strings.Split(id, "-")[0]\<close> is what precedes the first hyphen.\<close>

definition accept_and_run :: "PingEnv \<Rightarrow> api_Job \<Rightarrow> AgentWorker \<Rightarrow> unit outcome" where
  "accept_and_run env job a =
     (let a1 = logger InfoLevel ''Assigned job %s. Accepting...'' [ArgStr (ID job)]
                 (UpdateProcTitle (''job '' @ takeWhile (\<lambda>c. c \<noteq> CHR ''-'') (ID job)) a)
      in case retry_Do 30 (accept_attempt env job) (None, a1) of
           (err, (None, a2)) \<Rightarrow> Return () (logger ErrorLevel ''Failed to accept job'' [] a2)
         | (err, (Some accepted, a2)) \<Rightarrow> run_job env accepted a2)"

definition Ping :: "PingEnv \<Rightarrow> AgentWorker \<Rightarrow> unit outcome" where
  "Ping env a =
     (let a1 = emit (PingsGet (apiClient a)) (UpdateProcTitle ''pinging'' a)
      in case pings_get env of
           Inl err \<Rightarrow> Return () (ping_failed env err a1)
         | Inr ping0 \<Rightarrow>
             (let a2 = a1\<lparr>lastPing := Unix (now env)\<rparr>;
                  ping = fst (switch_endpoint env ping0 a2);
                  a3 = snd (switch_endpoint env ping0 a2);
                  a4 = (if Message ping \<noteq> [] then logger InfoLevel (Message ping) [] a3 else a3)
              in if Action ping = ''disconnect'' then Stop False a4
                 else case Job ping of
                        None \<Rightarrow> Return () (UpdateProcTitle ''idle'' a4)
                      | Some job \<Rightarrow> accept_and_run env job a4))"

subsection \<open>Start\<close>

text \<open>
  \<^verbatim>\<open>time.NewTicker(d)\<close> panics unless \<open>d\<close> is positive; \<^verbatim>\<open>time.NewTimer\<close> takes any duration.
  Lines 129 to 198 of \<^verbatim>\<open>Start\<close>, after the metrics collector has started: the intervals,
  the ticker, the three goroutines and the log lines.
\<close>

definition Start_init :: "AgentWorker \<Rightarrow> unit outcome" where
  "Start_init a =
     (let a1 = a\<lparr>running := True\<rparr>;
          pingInterval = seconds (PingInterval (agent a1))
      in if pingInterval \<le>s 0 then Panic NonPositiveTickerInterval a1
         else
           (let a2 = (emit (TickerNew pingInterval) a1)\<lparr>ticker := Some (Timer pingInterval True)\<rparr>;
                a3 = a2\<lparr>tasks := tasks a2 @ [Heartbeater]\<rparr>;
                a4 = (if DisconnectAfterJob (conf a3) then
                        logger DebugLevel ''[DisconnectionTimer] Started for %d seconds...''
                          [ArgInt (DisconnectAfterJobTimeout (conf a3))]
                          ((emit (TimerNew TheDisconnectTimeoutTimer
                                    (seconds (DisconnectAfterJobTimeout (conf a3)))) a3)
                             \<lparr>disconnectTimeoutTimer :=
                                Some (Timer (seconds (DisconnectAfterJobTimeout (conf a3))) True),
                              tasks := tasks a3 @ [DisconnectWatcher]\<rparr>)
                      else a3);
                a5 = (if 0 <s DisconnectAfterIdleTimeout (conf a4) then
                        (emit (TimerNew TheIdleTimer
                                 (seconds (DisconnectAfterIdleTimeout (conf a4)))) a4)
                          \<lparr>idleTimer :=
                             Some (Timer (seconds (DisconnectAfterIdleTimeout (conf a4))) True),
                           tasks := tasks a4 @ [IdleWatcher]\<rparr>
                      else a4)
            in Return ()
                 (if DisconnectAfterJob (conf a5) then
                    logger InfoLevel
                      ''The agent will automatically disconnect after %d seconds if no job is assigned''
                      [ArgInt (DisconnectAfterJobTimeout (conf a5))]
                      (logger InfoLevel ''Waiting for job to be assigned...'' [] a5)
                  else if 0 <s DisconnectAfterIdleTimeout (conf a5) then
                    logger InfoLevel
                      ''The agent will automatically disconnect after %d seconds of inactivity''
                      [ArgInt (DisconnectAfterIdleTimeout (conf a5))]
                      (logger InfoLevel ''Waiting for job to be assigned...'' [] a5)
                  else logger InfoLevel ''Waiting for work...'' [] a5)))"

text \<open>
  The loop of lines 202 to 218 may run forever, so it is run against a schedule: one round
  for each turn of the loop, giving what that turn's \<^verbatim>\<open>Ping\<close> is answered, the steps the
  other tasks take while the loop is suspended in its \<^verbatim>\<open>select\<close>, and whether the
  \<^verbatim>\<open>select\<close> takes the stop channel once that is closed (both channels may be ready;
  Go then chooses either). A schedule that ends leaves the loop \<open>Waiting\<close>: it has not
  returned.
\<close>

record Round =
  ping_env :: PingEnv
  waiting :: "conc list"
  take_stop :: bool

datatype 'r run = Done "'r outcome" | Waiting AgentWorker

fun Start_loop :: "Round list \<Rightarrow> AgentWorker \<Rightarrow> (error option) run" where
  "Start_loop [] a = Waiting a"
| "Start_loop (r # rs) a =
     (case (if \<not> stopping a then Ping (ping_env r) a else Return () a) of
        Panic p a1 \<Rightarrow> Done (Panic p a1)
      | Return u a1 \<Rightarrow>
          (case concurrently (waiting r) a1 of
             Panic p a2 \<Rightarrow> Done (Panic p a2)
           | Return u a2 \<Rightarrow>
               if take_stop r \<and> stop a2 = Closed then
                 Done (Return None
                   ((emit TickerStop a2)
                      \<lparr>ticker := halted (ticker a2), running := False\<rparr>))
               else Start_loop rs (emit TickerTick a2)))"

text \<open>
  \<^verbatim>\<open>Start\<close>: the metrics collector is started (its error is the only one \<^verbatim>\<open>Start\<close>
  returns) and stopped by the deferred call, which also runs when a panic unwinds.
\<close>

record StartEnv =
  collector_start :: "error option"
  rounds :: "Round list"

definition Start :: "StartEnv \<Rightarrow> AgentWorker \<Rightarrow> (error option) run" where
  "Start env a =
     (case collector_start env of
        Some err \<Rightarrow> Done (Return (Some err) (emit MetricsStart a))
      | None \<Rightarrow>
          (case Start_init (emit MetricsStart a) of
             Panic p a1 \<Rightarrow> Done (Panic p (emit MetricsStop a1))
           | Return u a1 \<Rightarrow>
               (case Start_loop (rounds env) a1 of
                  Done (Return e a2) \<Rightarrow> Done (Return e (emit MetricsStop a2))
                | Done (Panic p a2) \<Rightarrow> Done (Panic p (emit MetricsStop a2))
                | Waiting a2 \<Rightarrow> Waiting a2)))"

fun state_of :: "'r run \<Rightarrow> AgentWorker" where
  "state_of (Done out) = final out"
| "state_of (Waiting a) = a"

subsection \<open>Executions and example inputs\<close>

fun returned :: "'r outcome \<Rightarrow> bool" where
  "returned (Return r a) = True"
| "returned (Panic p a) = False"

text \<open>
  A sequence of calls of \<^verbatim>\<open>Stop\<close>, from whatever tasks: the mutex puts them in some order.
  Each call comes with the value the ping loop has given \<^verbatim>\<open>jobRunner\<close> by the time of the call.
\<close>

fun Stops :: "(bool \<times> JobRunner option) list \<Rightarrow> AgentWorker \<Rightarrow> unit outcome" where
  "Stops [] a = Return () a"
| "Stops (c # cs) a =
     (case Stop (fst c) (a\<lparr>jobRunner := snd c\<rparr>) of
        Panic p a1 \<Rightarrow> Panic p a1
      | Return u a1 \<Rightarrow> Stops cs a1)"

text \<open>How often the stop channel has been closed.\<close>

definition closes :: "AgentWorker \<Rightarrow> nat" where
  "closes a = count_list (effects a) CloseStop"

definition example_agent :: AgentRegisterResponse where
  "example_agent =
     \<lparr>Name = ''agent-1'', AccessToken = ''token'', Agent_Endpoint = ''https://e1'',
      PingInterval = 5, HeartbeatInterval = 60\<rparr>"

definition example_conf :: AgentWorkerConfig where
  "example_conf =
     \<lparr>Debug = False, Conf_Endpoint = ''https://e0'', Conf_DisableHTTP2 = True,
      DisconnectAfterJob = True, DisconnectAfterJobTimeout = 60,
      DisconnectAfterIdleTimeout = 30, Conf_JobRunnerConfig = MkJobRunnerConfig 0\<rparr>"

definition example_worker :: AgentWorker where
  "example_worker = NewAgentWorker example_agent example_conf"

text \<open>A worker whose job is running, and the same worker after a graceful \<^verbatim>\<open>Stop\<close>.\<close>

definition busy_worker :: AgentWorker where
  "busy_worker = example_worker\<lparr>jobRunner := Some (MkJobRunner 1)\<rparr>"

definition stopping_worker :: AgentWorker where
  "stopping_worker = final (Stop True busy_worker)"

text \<open>
  The states the worker goes through once \<^verbatim>\<open>Start\<close> has set it up: the stop channel is
  closed if the worker is stopping and open if not, it has been closed once if the worker
  is stopping and never if not, and the idle timer exists if the idle timeout is positive.
\<close>

definition sound :: "AgentWorker \<Rightarrow> bool" where
  "sound a =
     (stop a = (if stopping a then Closed else Open)
      \<and> closes a = (if stopping a then 1 else 0)
      \<and> (idleTimer a \<noteq> None \<or> \<not> 0 <s DisconnectAfterIdleTimeout (conf a)))"

text \<open>
  Two relations between a state and a later one, for the proofs. \<open>quiet a b\<close>: the effects
  of \<open>b\<close> are those of \<open>a\<close> followed by effects that are neither the process title of a
  ping nor a tick of the ticker, \<open>b\<close> is stopping if \<open>a\<close> was, and sound if \<open>a\<close> was.
  \<open>steady a b\<close> moreover keeps the client, the descriptor, the configuration and the time
  of the last ping.
\<close>

definition quiet :: "AgentWorker \<Rightarrow> AgentWorker \<Rightarrow> bool" where
  "quiet a b =
     (take (length (effects a)) (effects b) = effects a
      \<and> ProcTitle ''pinging'' \<notin> set (drop (length (effects a)) (effects b))
      \<and> TickerTick \<notin> set (drop (length (effects a)) (effects b))
      \<and> (stopping b \<or> \<not> stopping a)
      \<and> (sound b \<or> \<not> sound a))"

definition steady :: "AgentWorker \<Rightarrow> AgentWorker \<Rightarrow> bool" where
  "steady a b =
     (quiet a b \<and> apiClient b = apiClient a \<and> agent b = agent a \<and> conf b = conf a
      \<and> lastPing b = lastPing a)"



text \<open>
  Example answers: a ping that assigns a job which is accepted at once and runs; the same
  with a job runner that cannot be made; a ping that fails; a ping that names another
  endpoint, whose probe succeeds; heartbeats that all fail.
\<close>

definition example_job :: api_Job where
  "example_job = \<lparr>ID = ''abc-123'', Env = [(''BUILDKITE_BRANCH'', ''main'')]\<rparr>"

definition no_ping :: api_Ping where
  "no_ping = \<lparr>Ping_Endpoint = [], Message = [], Action = [], Job = None\<rparr>"

definition job_env :: PingEnv where
  "job_env =
     \<lparr>pings_get = Inr (no_ping\<lparr>Job := Some example_job\<rparr>),
      now = 65000000000,
      probe_get = Inl (Err ''not asked''),
      jobs_accept = (\<lambda>i. \<lparr>reply_job = Some example_job, reply_err = None, reply_retryable = False\<rparr>),
      new_job_runner = (Some (MkJobRunner 1), None),
      during_run = [],
      run_result = None\<rparr>"

definition broken_runner_env :: PingEnv where
  "broken_runner_env = job_env\<lparr>new_job_runner := (None, Some (Err ''no temporary file''))\<rparr>"

definition failing_env :: PingEnv where
  "failing_env = job_env\<lparr>pings_get := Inl (Err ''connection refused''), now := 59000000000\<rparr>"

definition switch_env :: PingEnv where
  "switch_env =
     job_env\<lparr>pings_get := Inr (no_ping\<lparr>Ping_Endpoint := ''https://e2''\<rparr>),
             probe_get := Inr (no_ping\<lparr>Message := ''welcome''\<rparr>)\<rparr>"

definition started_worker :: AgentWorker where
  "started_worker = final (Start_init example_worker)"

definition job_done_worker :: AgentWorker where
  "job_done_worker = final (Ping job_env started_worker)"

definition failing_heartbeats :: HeartbeatEnv where
  "failing_heartbeats = \<lparr>beats = (\<lambda>i. Inl (Err ''timeout'')), hb_now = 260000000000\<rparr>"

definition pinged_worker :: AgentWorker where
  "pinged_worker = example_worker\<lparr>lastPing := 100, lastHeartbeat := 250\<rparr>"

definition idle_round :: Round where
  "idle_round = \<lparr>ping_env = job_env\<lparr>pings_get := Inr no_ping\<rparr>, waiting = [], take_stop = False\<rparr>"

definition zero_ping_agent :: AgentRegisterResponse where
  "zero_ping_agent = example_agent\<lparr>PingInterval := 0\<rparr>"

text \<open>
  The contract of \<^verbatim>\<open>NewJobRunner\<close> (not among the sources) that \<^verbatim>\<open>Ping\<close> relies on when it
  calls \<^verbatim>\<open>Run\<close>: a nil error comes with a job runner.
\<close>

definition runner_contract :: "PingEnv \<Rightarrow> bool" where
  "runner_contract env = (fst (new_job_runner env) \<noteq> None \<or> snd (new_job_runner env) \<noteq> None)"

fun panicked :: "'r run \<Rightarrow> bool" where
  "panicked (Done (Panic p a)) = True"
| "panicked (Done (Return r a)) = False"
| "panicked (Waiting a) = False"

text \<open>
  A worker set up by \<^verbatim>\<open>Start\<close> whose job is running; a schedule of two turns of the ping
  loop, the first finding no job, the second a job, after which the loop takes the closed
  stop channel; a descriptor whose heartbeat interval is 0.
\<close>

definition running_worker :: AgentWorker where
  "running_worker = started_worker\<lparr>jobRunner := Some (MkJobRunner 1)\<rparr>"

definition job_round :: Round where
  "job_round = \<lparr>ping_env = job_env, waiting = [], take_stop = True\<rparr>"

definition one_job :: StartEnv where
  "one_job = \<lparr>collector_start = None, rounds = [idle_round, job_round]\<rparr>"

definition zero_heartbeat_agent :: AgentRegisterResponse where
  "zero_heartbeat_agent = example_agent\<lparr>HeartbeatInterval := 0\<rparr>"

text \<open>A worker set up by \<^verbatim>\<open>Start\<close> with neither disconnect-after-job nor an idle timeout.\<close>

definition plain_conf :: AgentWorkerConfig where
  "plain_conf = example_conf\<lparr>DisconnectAfterJob := False, DisconnectAfterIdleTimeout := 0\<rparr>"

definition plain_worker :: AgentWorker where
  "plain_worker = final (Start_init (NewAgentWorker example_agent plain_conf))"

text \<open>
  A third relation, for the proofs: the effects of \<open>b\<close> are those of \<open>a\<close> followed by effects
  among which \<^verbatim>\<open>Run\<close> of the job runner \<open>r\<close> does not occur.
\<close>

definition runless :: "JobRunner \<Rightarrow> AgentWorker \<Rightarrow> AgentWorker \<Rightarrow> bool" where
  "runless r a b =
     (take (length (effects a)) (effects b) = effects a
      \<and> Run r \<notin> set (drop (length (effects a)) (effects b)))"

text \<open>
  A \<^verbatim>\<open>NewJobRunner\<close> that returns a job runner together with its error; a run of \<^verbatim>\<open>Start\<close>
  whose only turn meets it, after which another task stops the worker gracefully and the
  loop takes the closed channel; the worker that run leaves behind.
\<close>

definition stale_runner_env :: PingEnv where
  "stale_runner_env =
     job_env\<lparr>new_job_runner := (Some (MkJobRunner 7), Some (Err ''no temporary file''))\<rparr>"

definition stale_run :: StartEnv where
  "stale_run =
     \<lparr>collector_start = None,
      rounds = [\<lparr>ping_env = stale_runner_env, waiting = [CallStop True], take_stop = True\<rparr>]\<rparr>"

definition left_worker :: AgentWorker where
  "left_worker = state_of (Start stale_run example_worker)"

text \<open>
  A turn of the ping loop whose job is running when another task calls \<^verbatim>\<open>Stop(false)\<close>,
  so that \<^verbatim>\<open>Run\<close> returns an error; the run of \<^verbatim>\<open>Start\<close> that has this turn after an idle
  one; the worker at the start of that turn.
\<close>

definition cancelled_round :: Round where
  "cancelled_round =
     \<lparr>ping_env = job_env\<lparr>during_run := [CallStop False], run_result := Some (Err ''canceled'')\<rparr>,
      waiting = [], take_stop = True\<rparr>"

definition cancelled_run :: StartEnv where
  "cancelled_run = \<lparr>collector_start = None, rounds = [idle_round, cancelled_round]\<rparr>"

definition turn_worker :: AgentWorker where
  "turn_worker =
     state_of (Start_loop [idle_round] (final (Start_init (emit MetricsStart example_worker))))"

section \<open>Properties\<close>

subsection \<open>Abbreviations and arithmetic\<close>

lemmas eff = logger_def emit_def UpdateProcTitle_def

lemmas word_eval = seconds_def Second_def word_sle_eq word_sless_alt

lemmas inv = sound_def closes_def

lemma retry_attempts_numeral:
  "retry_attempts (numeral k) i f s =
     (case f i s of
        (None, brk, s') \<Rightarrow> (None, s')
      | (Some e, brk, s') \<Rightarrow>
          if brk then (Some e, s') else retry_attempts (pred_numeral k) (Suc i) f s')"
  by (simp add: numeral_eq_Suc)

lemma seconds_exact:
  assumes "0 \<le> sint n" and "sint n \<le> 9223372036"
  shows "sint (seconds n) = sint n * 1000000000"
proof -
  have s: "sint (1000000000 :: 64 word) = 1000000000" by simp
  have "sint (seconds n) = signed_take_bit 63 (1000000000 * sint n)"
    using s by (simp add: seconds_def Second_def sint_word_ariths)
  also have "\<dots> = 1000000000 * sint n"
    by (rule signed_take_bit_int_eq_self) (use assms in simp_all)
  finally show ?thesis by simp
qed

subsection \<open>Stop\<close>

lemma Stop_first:
  assumes "stop a = Open" and "\<not> stopping a"
  shows "returned (Stop g a) \<and> stop (final (Stop g a)) = Closed \<and> stopping (final (Stop g a))
         \<and> closes (final (Stop g a)) = closes a + 1
         \<and> last (effects (final (Stop g a))) = CloseStop"
  using assms
  by (cases "jobRunner a"; cases g) (simp_all add: Stop_def Let_def eff closes_def)

lemma Stop_later_closes:
  assumes "stopping a"
  shows "returned (Stop g a) \<and> stop (final (Stop g a)) = stop a \<and> stopping (final (Stop g a))
         \<and> closes (final (Stop g a)) = closes a"
  using assms
  by (cases "jobRunner a"; cases g) (simp_all add: Stop_def Let_def eff closes_def)

lemma Stops_later:
  "stopping a \<Longrightarrow> returned (Stops cs a) \<and> stop (final (Stops cs a)) = stop a
     \<and> stopping (final (Stops cs a)) \<and> closes (final (Stops cs a)) = closes a"
proof (induction cs arbitrary: a)
  case Nil
  then show ?case by simp
next
  case (Cons c cs)
  let ?b = "a\<lparr>jobRunner := snd c\<rparr>"
  have b: "stopping ?b" using Cons.prems by simp
  obtain a1 where a1: "Stop (fst c) ?b = Return () a1"
    using Stop_later_closes [OF b, of "fst c"] by (cases "Stop (fst c) ?b") auto
  from Stop_later_closes [OF b, of "fst c"] a1
  have s1: "stopping a1" "stop a1 = stop a" "closes a1 = closes a"
    by (simp_all add: closes_def)
  from Cons.IH [OF s1(1)] a1 s1 show ?case by simp
qed

lemma Stop_graceful:
  assumes "stop a = (if stopping a then Closed else Open)"
  shows "Stop True a =
     Return ()
       (if stopping a then
          a\<lparr>effects := effects a @ [Log WarnLevel ''Agent is already gracefully stopping...'' []]\<rparr>
        else
          a\<lparr>stop := Closed, stopping := True,
            effects := effects a @
              [Log InfoLevel
                 (if jobRunner a \<noteq> None then
                    ''Gracefully stopping agent. Waiting for current job to finish before disconnecting...''
                  else
                    ''Gracefully stopping agent. Since there is no job running, the agent will disconnect immediately'')
                 [],
               ProcTitle ''stopping'',
               CloseStop]\<rparr>)"
  using assms
  by (cases "stopping a"; cases "jobRunner a") (simp_all add: Stop_def Let_def eff)

lemma jobRunner_Stop: "jobRunner (final (Stop g a)) = jobRunner a"
  by (cases "jobRunner a"; cases g; cases "stop a") (simp_all add: Stop_def Let_def eff)

lemma jobRunner_stopIfIdle: "jobRunner (final (stopIfIdle a)) = jobRunner a"
  by (simp add: stopIfIdle_def jobRunner_Stop eff)

subsection \<open>What every step keeps\<close>

lemma quiet_iff:
  "quiet a b \<longleftrightarrow>
     (\<exists>es. effects b = effects a @ es \<and> ProcTitle ''pinging'' \<notin> set es \<and> TickerTick \<notin> set es)
     \<and> (stopping b \<or> \<not> stopping a) \<and> (sound b \<or> \<not> sound a)"
proof
  assume q: "quiet a b"
  then have "effects b = effects a @ drop (length (effects a)) (effects b)"
    by (metis append_take_drop_id quiet_def)
  with q show "(\<exists>es. effects b = effects a @ es \<and> ProcTitle ''pinging'' \<notin> set es \<and> TickerTick \<notin> set es)
     \<and> (stopping b \<or> \<not> stopping a) \<and> (sound b \<or> \<not> sound a)"
    unfolding quiet_def by blast
next
  assume "(\<exists>es. effects b = effects a @ es \<and> ProcTitle ''pinging'' \<notin> set es \<and> TickerTick \<notin> set es)
     \<and> (stopping b \<or> \<not> stopping a) \<and> (sound b \<or> \<not> sound a)"
  then show "quiet a b" by (auto simp: quiet_def)
qed

lemma quiet_refl: "quiet a a"
  by (simp add: quiet_def)

lemma quiet_trans: "quiet a b \<Longrightarrow> quiet b c \<Longrightarrow> quiet a c"
  unfolding quiet_iff by auto

lemma quiet_sound: "quiet a b \<Longrightarrow> sound a \<Longrightarrow> sound b"
  by (auto simp: quiet_def)


lemma quiet_upd:
  "quiet a b \<Longrightarrow> effects c = effects b \<Longrightarrow> stopping c = stopping b \<Longrightarrow> stop c = stop b
     \<Longrightarrow> idleTimer c = idleTimer b \<Longrightarrow> conf c = conf b \<Longrightarrow> quiet a c"
  by (simp add: quiet_def inv)

lemma quiet_emit:
  "quiet a b \<Longrightarrow> e \<noteq> ProcTitle ''pinging'' \<Longrightarrow> e \<noteq> TickerTick \<Longrightarrow> e \<noteq> CloseStop
     \<Longrightarrow> quiet a (emit e b)"
  unfolding quiet_iff by (auto simp: emit_def inv)

lemma quiet_extends: "quiet a b \<Longrightarrow> \<exists>es. effects b = effects a @ es"
  unfolding quiet_iff by blast

lemma steady_refl: "steady a a"
  by (simp add: steady_def quiet_refl)

lemma steady_trans: "steady a b \<Longrightarrow> steady b c \<Longrightarrow> steady a c"
  unfolding steady_def using quiet_trans by auto

lemma steady_quiet: "steady a b \<Longrightarrow> quiet a b"
  by (simp add: steady_def)

lemma steady_sound: "steady a b \<Longrightarrow> sound a \<Longrightarrow> sound b"
  by (auto simp: steady_def quiet_def)

lemma steady_upd:
  "steady a b \<Longrightarrow> effects c = effects b \<Longrightarrow> apiClient c = apiClient b \<Longrightarrow> agent c = agent b
     \<Longrightarrow> conf c = conf b \<Longrightarrow> stopping c = stopping b \<Longrightarrow> lastPing c = lastPing b
     \<Longrightarrow> stop c = stop b \<Longrightarrow> idleTimer c \<noteq> None \<or> idleTimer b = None \<Longrightarrow> steady a c"
  by (auto simp add: steady_def quiet_def inv)

lemma steady_emit:
  "steady a b \<Longrightarrow> e \<noteq> ProcTitle ''pinging'' \<Longrightarrow> e \<noteq> TickerTick \<Longrightarrow> e \<noteq> CloseStop
     \<Longrightarrow> steady a (emit e b)"
  unfolding steady_def quiet_iff by (auto simp: emit_def inv)

lemma steady_logger: "steady a b \<Longrightarrow> steady a (logger l m xs b)"
  unfolding logger_def by (rule steady_emit) simp_all

lemma steady_Stop: "steady a (final (Stop g a))"
  by (cases "jobRunner a"; cases g; cases "stop a")
     (auto simp add: Stop_def Let_def eff steady_def quiet_def inv)

lemma steady_stopIfIdle: "steady a (final (stopIfIdle a))"
  using steady_Stop [of a True]
  by (simp add: stopIfIdle_def) (auto simp add: steady_def quiet_def eff inv)

lemma steady_retry:
  assumes "\<And>i s. steady (snd s) (snd (snd (snd (f i s))))"
  shows "steady (snd s) (snd (snd (retry_attempts n i f s)))"
proof (induction n arbitrary: i s)
  case 0
  obtain e brk s' where f: "f i s = (e, brk, s')" by (cases "f i s") auto
  have "steady (snd s) (snd s')" using assms [of s i] f by simp
  with f show ?case by simp
next
  case (Suc n)
  obtain e brk s' where f: "f i s = (e, brk, s')" by (cases "f i s") auto
  have s': "steady (snd s) (snd s')" using assms [of s i] f by simp
  show ?case
  proof (cases e)
    case None
    with f s' show ?thesis by simp
  next
    case (Some err)
    show ?thesis
    proof (cases brk)
      case True
      with f s' Some show ?thesis by simp
    next
      case False
      have "steady (snd s') (snd (snd (retry_attempts n (Suc i) f s')))" by (rule Suc.IH)
      with s' have "steady (snd s) (snd (snd (retry_attempts n (Suc i) f s')))"
        by (rule steady_trans)
      with f Some False show ?thesis by simp
    qed
  qed
qed

lemma retry_invariant:
  assumes "\<And>i s. P (snd s) \<Longrightarrow> P (snd (snd (snd (f i s))))" and "P (snd s)"
  shows "P (snd (snd (retry_attempts n i f s)))"
  using assms(2)
proof (induction n arbitrary: i s)
  case 0
  obtain e brk s' where f: "f i s = (e, brk, s')" by (cases "f i s") auto
  with assms(1) [OF 0, of i] show ?case by simp
next
  case (Suc n)
  obtain e brk s' where f: "f i s = (e, brk, s')" by (cases "f i s") auto
  with assms(1) [OF Suc.prems, of i] have s': "P (snd s')" by simp
  from Suc.IH [OF s'] s' f show ?case by (cases e) simp_all
qed

lemma steady_beat_attempt: "steady (snd s) (snd (snd (snd (beat_attempt env i s))))"
  by (auto simp add: beat_attempt_def Let_def eff steady_def quiet_def inv split: sum.splits)

lemma steady_accept_attempt: "steady (snd s) (snd (snd (snd (accept_attempt env job i s))))"
  by (auto simp add: accept_attempt_def Let_def eff steady_def quiet_def inv split: option.splits)

lemma steady_Heartbeat: "steady a (final (Heartbeat env a))"
proof -
  obtain e b a1 where r: "retry_Do 5 (beat_attempt env) (None, a) = (e, (b, a1))"
    by (metis prod.exhaust)
  have "steady (snd (None :: api_Heartbeat option, a))
          (snd (snd (retry_attempts 4 0 (beat_attempt env) (None, a))))"
    by (rule steady_retry) (rule steady_beat_attempt)
  with r have s: "steady a a1" by (simp add: retry_Do_def)
  have u: "steady a (a1\<lparr>lastHeartbeat := Unix (hb_now env)\<rparr>)"
    by (rule steady_upd [OF s]) auto
  show ?thesis
    using r s u steady_logger [OF u]
    by (simp add: Heartbeat_def split: option.splits)
qed

lemma jobRunner_Heartbeat: "jobRunner (final (Heartbeat env a)) = jobRunner a"
proof -
  obtain e b a1 where r: "retry_Do 5 (beat_attempt env) (None, a) = (e, (b, a1))"
    by (metis prod.exhaust)
  have "jobRunner (snd (snd (retry_attempts 4 0 (beat_attempt env) (None, a)))) = jobRunner a"
    by (rule retry_invariant [where P = "\<lambda>b. jobRunner b = jobRunner a"])
       (simp_all add: beat_attempt_def Let_def eff split: sum.splits)
  with r have "jobRunner a1 = jobRunner a" by (simp add: retry_Do_def)
  with r show ?thesis by (simp add: Heartbeat_def eff split: option.splits)
qed

lemma steady_heartbeat_due: "steady a (final (heartbeat_due env a))"
proof (cases "Heartbeat env a")
  case (Panic p a1)
  with steady_Heartbeat [of a env] show ?thesis by (simp add: heartbeat_due_def Let_def)
next
  case (Return e a1)
  with steady_Heartbeat [of a env] have s: "steady a a1" by simp
  show ?thesis
    using Return s steady_logger [OF s]
    by (simp add: heartbeat_due_def Let_def split: option.splits)
qed

lemma jobRunner_heartbeat_due: "jobRunner (final (heartbeat_due env a)) = jobRunner a"
  using jobRunner_Heartbeat [of env a]
  by (cases "Heartbeat env a") (simp_all add: heartbeat_due_def Let_def eff split: option.splits)

lemma steady_conc_step: "steady a (final (conc_step c a))"
proof (cases c)
  case (CallStop g)
  then show ?thesis by (simp add: steady_Stop)
next
  case (HeartbeatDue env)
  then show ?thesis by (simp add: steady_heartbeat_due steady_refl)
next
  case HeartbeaterLeaves
  then show ?thesis by (simp add: steady_refl) (auto simp add: steady_def quiet_def eff inv)
next
  case DisconnectTimerFires
  let ?b = "logger DebugLevel ''[DisconnectionTimer] Reached %d seconds...''
             [ArgInt (DisconnectAfterJobTimeout (conf a))]
             (a\<lparr>disconnectTimeoutTimer := halted (disconnectTimeoutTimer a),
                tasks := removeAll DisconnectWatcher (tasks a)\<rparr>)"
  have "steady a ?b"
    by (auto simp add: steady_def quiet_def eff inv halted_def split: option.splits timer.splits)
  then have "steady a (final (stopIfIdle ?b))"
    using steady_stopIfIdle [of ?b] by (rule steady_trans)
  with DisconnectTimerFires show ?thesis by (simp add: steady_refl)
next
  case IdleTimerFires
  let ?b = "logger InfoLevel ''Agent has been idle for %d seconds''
             [ArgInt (DisconnectAfterIdleTimeout (conf a))]
             (a\<lparr>idleTimer := halted (idleTimer a)\<rparr>)"
  have "steady a ?b"
    by (auto simp add: steady_def quiet_def eff inv halted_def split: option.splits timer.splits)
  then have "steady a (final (stopIfIdle ?b))"
    using steady_stopIfIdle [of ?b] by (rule steady_trans)
  with IdleTimerFires show ?thesis by (simp add: steady_refl)
next
  case IdleWatcherLeaves
  then show ?thesis by (simp add: steady_refl) (auto simp add: steady_def quiet_def eff inv)
qed

lemma jobRunner_conc_step: "jobRunner (final (conc_step c a)) = jobRunner a"
  by (cases c) (simp_all add: jobRunner_Stop jobRunner_stopIfIdle jobRunner_heartbeat_due eff)

lemma steady_concurrently: "steady a (final (concurrently cs a))"
proof (induction cs arbitrary: a)
  case Nil
  show ?case by (simp add: steady_refl)
next
  case (Cons c cs)
  show ?case
  proof (cases "conc_step c a")
    case (Panic p a1)
    with steady_conc_step [of a c] show ?thesis by simp
  next
    case (Return u a1)
    with steady_conc_step [of a c] have "steady a a1" by simp
    then have "steady a (final (concurrently cs a1))"
      using Cons.IH [of a1] by (rule steady_trans)
    with Return show ?thesis by simp
  qed
qed

lemma concurrently_extends: "\<exists>es. effects (final (concurrently cs a)) = effects a @ es"
  using quiet_extends [OF steady_quiet [OF steady_concurrently]] .

lemma steady_after_job: "steady a (final (after_job a))"
proof -
  let ?pre = "(if DisconnectAfterJob (conf a) then
           (let a1 = logger InfoLevel ''Job finished. Disconnecting...'' [] a;
                a2 = (case disconnectTimeoutTimer a1 of
                        None \<Rightarrow> a1
                      | Some (Timer d r) \<Rightarrow>
                          (emit (TimerStop TheDisconnectTimeoutTimer) a1)
                            \<lparr>disconnectTimeoutTimer := Some (Timer d False)\<rparr>)
            in Stop True a2)
         else Return () a)"
  have pre: "steady a (final ?pre)"
  proof (cases "DisconnectAfterJob (conf a)")
    case False
    then show ?thesis by (simp add: steady_refl)
  next
    case True
    let ?a1 = "logger InfoLevel ''Job finished. Disconnecting...'' [] a"
    let ?a2 = "(case disconnectTimeoutTimer ?a1 of
                        None \<Rightarrow> ?a1
                      | Some (Timer d r) \<Rightarrow>
                          (emit (TimerStop TheDisconnectTimeoutTimer) ?a1)
                            \<lparr>disconnectTimeoutTimer := Some (Timer d False)\<rparr>)"
    have "steady a ?a2"
      by (auto simp add: steady_def quiet_def eff inv split: option.splits timer.splits)
    then have "steady a (final (Stop True ?a2))"
      using steady_Stop [of ?a2 True] by (rule steady_trans)
    with True show ?thesis by (simp add: Let_def)
  qed
  show ?thesis
  proof (cases ?pre)
    case (Panic p a3)
    with pre show ?thesis by (simp add: after_job_def Let_def)
  next
    case (Return u a3)
    with pre have s3: "steady a a3" by simp
    let ?a4 = "logger InfoLevel ''Job finished. Resetting idle timer...'' [] a3"
    have s4: "steady a ?a4" using s3 by (rule steady_logger)
    have s5: "steady a ((emit (TimerReset TheIdleTimer
                                (seconds (DisconnectAfterIdleTimeout (conf ?a4)))) ?a4)
                         \<lparr>idleTimer :=
                            Some (Timer (seconds (DisconnectAfterIdleTimeout (conf ?a4))) True)\<rparr>)"
      by (rule steady_upd [OF steady_emit [OF s4]]) auto
    show ?thesis
      using Return s3 s4 s5 by (simp add: after_job_def Let_def split: option.splits)
  qed
qed

lemma steady_run_job: "steady a (final (run_job env accepted a))"
proof -
  let ?tags = "[(''pipeline'', env_get (Env accepted) ''BUILDKITE_PIPELINE_SLUG''),
             (''org'', env_get (Env accepted) ''BUILDKITE_ORGANIZATION_SLUG''),
             (''branch'', env_get (Env accepted) ''BUILDKITE_BRANCH''),
             (''source'', env_get (Env accepted) ''BUILDKITE_SOURCE'')]"
  let ?a1 = "(emit (CallNewJobRunner ?tags accepted (Conf_JobRunnerConfig (conf a))) a)
                 \<lparr>jobRunner := fst (new_job_runner env)\<rparr>"
  let ?a2 = "(case disconnectTimeoutTimer ?a1 of
                  None \<Rightarrow> ?a1
                | Some (Timer d r) \<Rightarrow>
                    (emit (TimerStop TheDisconnectTimeoutTimer)
                       (logger DebugLevel
                          ''[DisconnectionTimer] A job was assigned and accepted, stopping timer...''
                          [] ?a1))
                      \<lparr>disconnectTimeoutTimer := Some (Timer d False)\<rparr>)"
  have s2: "steady a ?a2"
    by (auto simp add: steady_def quiet_def eff inv split: option.splits timer.splits)
  show ?thesis
  proof (cases "snd (new_job_runner env)")
    case (Some err)
    with steady_logger [OF s2] show ?thesis by (simp add: run_job_def Let_def)
  next
    case None
    show ?thesis
    proof (cases "jobRunner ?a2")
      case N: None
      with None s2 show ?thesis by (simp add: run_job_def Let_def)
    next
      case (Some r)
      have sr: "steady a (emit (Run r) ?a2)" by (rule steady_emit [OF s2]) simp_all
      show ?thesis
      proof (cases "concurrently (during_run env) (emit (Run r) ?a2)")
        case (Panic p a3)
        with steady_concurrently [of "emit (Run r) ?a2" "during_run env"] sr
        have "steady a a3" using steady_trans by fastforce
        with None Some Panic show ?thesis by (simp add: run_job_def Let_def)
      next
        case (Return u a3)
        with steady_concurrently [of "emit (Run r) ?a2" "during_run env"] sr
        have s3: "steady a a3" using steady_trans by fastforce
        let ?a4 = "(case run_result env of
                                    Some err \<Rightarrow>
                                      logger ErrorLevel ''Failed to run job: %s'' [ArgErr err] a3
                                  | None \<Rightarrow> a3)"
        have s4: "steady a ?a4" using s3 steady_logger [OF s3] by (simp split: option.splits)
        have s5: "steady a (?a4\<lparr>jobRunner := None\<rparr>)" by (rule steady_upd [OF s4]) auto
        have "steady a (final (after_job (?a4\<lparr>jobRunner := None\<rparr>)))"
          using s5 steady_after_job by (rule steady_trans)
        with None Some Return show ?thesis by (simp add: run_job_def Let_def)
      qed
    qed
  qed
qed

lemma steady_accept_and_run: "steady a (final (accept_and_run env job a))"
proof -
  let ?a1 = "logger InfoLevel ''Assigned job %s. Accepting...'' [ArgStr (ID job)]
                 (UpdateProcTitle (''job '' @ takeWhile (\<lambda>c. c \<noteq> CHR ''-'') (ID job)) a)"
  have s1: "steady a ?a1" by (auto simp add: steady_def quiet_def eff inv)
  obtain e acc a2 where r: "retry_Do 30 (accept_attempt env job) (None, ?a1) = (e, (acc, a2))"
    by (metis prod.exhaust)
  have "steady (snd (None :: api_Job option, ?a1))
          (snd (snd (retry_attempts 29 0 (accept_attempt env job) (None, ?a1))))"
    by (rule steady_retry) (rule steady_accept_attempt)
  with r have "steady ?a1 a2" by (simp add: retry_Do_def)
  with s1 have s2: "steady a a2" by (rule steady_trans)
  show ?thesis
  proof (cases acc)
    case None
    with r steady_logger [OF s2] show ?thesis by (simp add: accept_and_run_def Let_def)
  next
    case (Some accepted)
    have "steady a (final (run_job env accepted a2))"
      using s2 steady_run_job by (rule steady_trans)
    with r Some show ?thesis by (simp add: accept_and_run_def Let_def)
  qed
qed

lemma steady_ping_failed: "steady a (ping_failed env err a)"
  by (auto simp add: ping_failed_def Let_def steady_def quiet_def eff inv)

lemma quiet_switch_endpoint: "quiet a (snd (switch_endpoint env ping a))"
  by (auto simp add: switch_endpoint_def Let_def quiet_def eff inv NewAPIClient_def split: sum.splits)

subsection \<open>Ping\<close>

lemma pick3:
  "Q x \<Longrightarrow> Q y \<Longrightarrow> (\<And>j. Q (z j)) \<Longrightarrow>
     Q (if c then x else case opt of None \<Rightarrow> y | Some j \<Rightarrow> z j)"
  by (simp split: option.splits)

lemma Ping_success:
  assumes "pings_get env = Inr ping0"
  shows "final (Ping env a) =
     (let a2 = (emit (PingsGet (apiClient a)) (UpdateProcTitle ''pinging'' a))\<lparr>lastPing := Unix (now env)\<rparr>;
          ping = fst (switch_endpoint env ping0 a2);
          a3 = snd (switch_endpoint env ping0 a2);
          a4 = (if Message ping \<noteq> [] then logger InfoLevel (Message ping) [] a3 else a3)
      in if Action ping = ''disconnect'' then final (Stop False a4)
         else case Job ping of
                None \<Rightarrow> UpdateProcTitle ''idle'' a4
              | Some job \<Rightarrow> final (accept_and_run env job a4))"
  using assms by (simp add: Ping_def Let_def split: option.splits)

lemma quiet_Ping: "quiet (UpdateProcTitle ''pinging'' a) (final (Ping env a))"
proof -
  let ?a0 = "UpdateProcTitle ''pinging'' a"
  let ?a1 = "emit (PingsGet (apiClient a)) ?a0"
  have q1: "quiet ?a0 ?a1" by (rule quiet_emit [OF quiet_refl]) simp_all
  show ?thesis
  proof (cases "pings_get env")
    case (Inl err)
    have "quiet ?a0 (ping_failed env err ?a1)"
      using q1 steady_quiet [OF steady_ping_failed] by (rule quiet_trans)
    with Inl show ?thesis by (simp add: Ping_def Let_def)
  next
    case (Inr ping0)
    let ?a2 = "?a1\<lparr>lastPing := Unix (now env)\<rparr>"
    let ?ping = "fst (switch_endpoint env ping0 ?a2)"
    let ?a3 = "snd (switch_endpoint env ping0 ?a2)"
    let ?a4 = "(if Message ?ping \<noteq> [] then logger InfoLevel (Message ?ping) [] ?a3 else ?a3)"
    have q2: "quiet ?a0 ?a2" by (rule quiet_upd [OF q1]) simp_all
    have q3: "quiet ?a0 ?a3" using q2 quiet_switch_endpoint by (rule quiet_trans)
    have q4: "quiet ?a0 ?a4"
      using q3 quiet_emit [OF q3, of "Log InfoLevel (Message ?ping) []"]
      by (simp add: logger_def)
    have stop: "quiet ?a0 (final (Stop False ?a4))"
      using q4 steady_quiet [OF steady_Stop] by (rule quiet_trans)
    have idle: "quiet ?a0 (UpdateProcTitle ''idle'' ?a4)"
      unfolding UpdateProcTitle_def [of "''idle''"] by (rule quiet_emit [OF q4]) simp_all
    have job: "quiet ?a0 (final (accept_and_run env job ?a4))" for job
      using q4 steady_quiet [OF steady_accept_and_run] by (rule quiet_trans)
    show ?thesis
      unfolding Ping_success [OF Inr] Let_def
      by (rule pick3 [where Q = "quiet ?a0"]) (fact stop, fact idle, fact job)
  qed
qed


lemma Ping_keeps_client:
  assumes "pings_get env = Inr ping0"
  shows "apiClient (final (Ping env a)) =
           apiClient (snd (switch_endpoint env ping0 (emit (PingsGet (apiClient a)) (UpdateProcTitle ''pinging'' a)\<lparr>lastPing := Unix (now env)\<rparr>)))"
proof -
  let ?a2 = "(emit (PingsGet (apiClient a)) (UpdateProcTitle ''pinging'' a))\<lparr>lastPing := Unix (now env)\<rparr>"
  let ?ping = "fst (switch_endpoint env ping0 ?a2)"
  let ?a3 = "snd (switch_endpoint env ping0 ?a2)"
  let ?a4 = "(if Message ?ping \<noteq> [] then logger InfoLevel (Message ?ping) [] ?a3 else ?a3)"
  have s4: "steady ?a3 ?a4" using steady_logger [OF steady_refl] by (simp add: steady_refl)
  have stop: "steady ?a3 (final (Stop False ?a4))"
    using s4 steady_Stop by (rule steady_trans)
  have idle: "steady ?a3 (UpdateProcTitle ''idle'' ?a4)"
    unfolding UpdateProcTitle_def [of "''idle''"] by (rule steady_emit [OF s4]) simp_all
  have job: "steady ?a3 (final (accept_and_run env job ?a4))" for job
    using s4 steady_accept_and_run by (rule steady_trans)
  have "steady ?a3 (final (Ping env a))"
    unfolding Ping_success [OF assms] Let_def
    by (rule pick3 [where Q = "steady ?a3"]) (fact stop, fact idle, fact job)
  then show ?thesis by (simp add: steady_def)
qed

subsection \<open>The ping loop\<close>

lemma turn_extends:
  "\<exists>es. effects (final (if \<not> stopping a then Ping env a else Return () a)) = effects a @ es"
proof (cases "stopping a")
  case True
  then show ?thesis by simp
next
  case False
  from quiet_extends [OF quiet_Ping [of a env]] obtain es
    where "effects (final (Ping env a)) = effects (UpdateProcTitle ''pinging'' a) @ es" by blast
  with False show ?thesis by (simp add: eff)
qed




subsection \<open>Panics\<close>

lemma Stop_returns: "sound a \<Longrightarrow> returned (Stop g a)"
  using Stop_first [of a g] Stop_later_closes [of a g]
  by (cases "stopping a") (simp_all add: sound_def)

lemma stopIfIdle_returns: "sound a \<Longrightarrow> returned (stopIfIdle a)"
  by (simp add: stopIfIdle_def Stop_returns)

lemma beat_retry:
  "fst (retry_attempts n i (beat_attempt env) s) = None \<Longrightarrow>
     fst (snd (retry_attempts n i (beat_attempt env) s)) \<noteq> None"
proof (induction n arbitrary: i s)
  case 0
  then show ?case
    by (cases "beats env i") (simp_all add: beat_attempt_def Let_def)
next
  case (Suc n)
  show ?case
  proof (cases "beats env i")
    case (Inl err)
    then have "retry_attempts (Suc n) i (beat_attempt env) s =
        retry_attempts n (Suc i) (beat_attempt env) (snd (snd (beat_attempt env i s)))"
      by (simp add: beat_attempt_def Let_def)
    with Suc show ?thesis by simp
  next
    case (Inr beat)
    then show ?thesis by (simp add: beat_attempt_def Let_def)
  qed
qed

lemma Heartbeat_returns: "returned (Heartbeat env a)"
proof -
  obtain e b a1 where r: "retry_Do 5 (beat_attempt env) (None, a) = (e, (b, a1))"
    by (metis prod.exhaust)
  show ?thesis
  proof (cases e)
    case (Some err)
    with r show ?thesis by (simp add: Heartbeat_def)
  next
    case None
    with r beat_retry [of 4 0 env "(None, a)"] have "b \<noteq> None"
      by (simp add: retry_Do_def)
    with r None show ?thesis by (auto simp add: Heartbeat_def)
  qed
qed

lemma heartbeat_due_returns: "returned (heartbeat_due env a)"
  using Heartbeat_returns [of env a]
  by (cases "Heartbeat env a") (simp_all add: heartbeat_due_def Let_def split: option.splits)

lemma conc_step_returns: "sound a \<Longrightarrow> returned (conc_step c a)"
proof (cases c)
  case (CallStop g)
  assume "sound a"
  with CallStop show ?thesis by (simp add: Stop_returns)
next
  case (HeartbeatDue env)
  then show ?thesis by (simp add: heartbeat_due_returns)
next
  case HeartbeaterLeaves
  then show ?thesis by simp
next
  case DisconnectTimerFires
  assume s: "sound a"
  let ?b = "logger DebugLevel ''[DisconnectionTimer] Reached %d seconds...''
             [ArgInt (DisconnectAfterJobTimeout (conf a))]
             (a\<lparr>disconnectTimeoutTimer := halted (disconnectTimeoutTimer a),
                tasks := removeAll DisconnectWatcher (tasks a)\<rparr>)"
  have "sound ?b" using s by (auto simp add: eff inv)
  then have "returned (stopIfIdle ?b)" by (rule stopIfIdle_returns)
  with DisconnectTimerFires show ?thesis by simp
next
  case IdleTimerFires
  assume s: "sound a"
  let ?b = "logger InfoLevel ''Agent has been idle for %d seconds''
             [ArgInt (DisconnectAfterIdleTimeout (conf a))]
             (a\<lparr>idleTimer := halted (idleTimer a)\<rparr>)"
  have "sound ?b" using s
    by (auto simp add: eff inv halted_def split: option.splits timer.splits)
  then have "returned (stopIfIdle ?b)" by (rule stopIfIdle_returns)
  with IdleTimerFires show ?thesis by simp
next
  case IdleWatcherLeaves
  then show ?thesis by simp
qed

lemma concurrently_returns: "sound a \<Longrightarrow> returned (concurrently cs a)"
proof (induction cs arbitrary: a)
  case Nil
  show ?case by simp
next
  case (Cons c cs)
  from conc_step_returns [OF Cons.prems, of c] obtain a1 where a1: "conc_step c a = Return () a1"
    by (cases "conc_step c a") auto
  with steady_conc_step [of a c] Cons.prems have "sound a1"
    using steady_sound by fastforce
  from Cons.IH [OF this] a1 show ?case by simp
qed

lemma after_job_returns:
  assumes "sound a"
  shows "returned (after_job a)"
proof -
  define a2 where "a2 =
     (case disconnectTimeoutTimer (logger InfoLevel ''Job finished. Disconnecting...'' [] a) of
        None \<Rightarrow> logger InfoLevel ''Job finished. Disconnecting...'' [] a
      | Some (Timer d r) \<Rightarrow>
          (emit (TimerStop TheDisconnectTimeoutTimer)
             (logger InfoLevel ''Job finished. Disconnecting...'' [] a))
            \<lparr>disconnectTimeoutTimer := Some (Timer d False)\<rparr>)"
  define a3 where "a3 = (if DisconnectAfterJob (conf a) then final (Stop True a2) else a)"
  have "steady a a2"
    by (auto simp add: a2_def steady_def quiet_def eff inv split: option.splits timer.splits)
  with assms have s2: "sound a2" and st2: "steady a a2" by (auto intro: steady_sound)
  from Stop_returns [OF s2, of True] have ret: "Stop True a2 = Return () (final (Stop True a2))"
    by (cases "Stop True a2") auto
  have "steady a a3"
    using st2 steady_Stop [of a2 True] steady_trans steady_refl by (auto simp add: a3_def)
  with assms have s3: "sound a3" and c3: "conf a3 = conf a"
    by (auto intro: steady_sound simp: steady_def)
  have pre: "(if DisconnectAfterJob (conf a) then Stop True a2 else Return () a) = Return () a3"
    using ret by (simp add: a3_def)
  have "after_job a =
      (if 0 <s DisconnectAfterIdleTimeout (conf a3) then
         (case idleTimer (logger InfoLevel ''Job finished. Resetting idle timer...'' [] a3) of
            None \<Rightarrow>
              Panic NilPointerDereference
                (logger InfoLevel ''Job finished. Resetting idle timer...'' [] a3)
          | Some t \<Rightarrow>
              Return ()
                ((emit (TimerReset TheIdleTimer (seconds (DisconnectAfterIdleTimeout (conf a3))))
                    (logger InfoLevel ''Job finished. Resetting idle timer...'' [] a3))
                   \<lparr>idleTimer := Some (Timer (seconds (DisconnectAfterIdleTimeout (conf a3))) True)\<rparr>))
       else Return () a3)"
    unfolding after_job_def Let_def a2_def [symmetric] pre
    by (simp add: eff split: option.splits)
  with s3 show ?thesis by (auto simp add: sound_def eff)
qed

lemma run_job_returns:
  assumes "sound a" and "runner_contract env"
  shows "returned (run_job env accepted a)"
proof -
  let ?tags = "[(''pipeline'', env_get (Env accepted) ''BUILDKITE_PIPELINE_SLUG''),
             (''org'', env_get (Env accepted) ''BUILDKITE_ORGANIZATION_SLUG''),
             (''branch'', env_get (Env accepted) ''BUILDKITE_BRANCH''),
             (''source'', env_get (Env accepted) ''BUILDKITE_SOURCE'')]"
  define a2 where "a2 =
    (case disconnectTimeoutTimer
            ((emit (CallNewJobRunner ?tags accepted (Conf_JobRunnerConfig (conf a))) a)
               \<lparr>jobRunner := fst (new_job_runner env)\<rparr>) of
       None \<Rightarrow> (emit (CallNewJobRunner ?tags accepted (Conf_JobRunnerConfig (conf a))) a)
               \<lparr>jobRunner := fst (new_job_runner env)\<rparr>
     | Some (Timer d r) \<Rightarrow>
         (emit (TimerStop TheDisconnectTimeoutTimer)
            (logger DebugLevel
               ''[DisconnectionTimer] A job was assigned and accepted, stopping timer...''
               [] ((emit (CallNewJobRunner ?tags accepted (Conf_JobRunnerConfig (conf a))) a)
               \<lparr>jobRunner := fst (new_job_runner env)\<rparr>)))
           \<lparr>disconnectTimeoutTimer := Some (Timer d False)\<rparr>)"
  have s2: "sound a2" and j2: "jobRunner a2 = fst (new_job_runner env)"
    using assms(1)
    by (auto simp add: a2_def eff inv split: option.splits timer.splits)
  have unfold: "run_job env accepted a =
     (case snd (new_job_runner env) of
           Some err \<Rightarrow> Return () (logger ErrorLevel ''Failed to initialize job: %s'' [ArgErr err] a2)
         | None \<Rightarrow>
             (case jobRunner a2 of
                None \<Rightarrow> Panic NilPointerDereference a2
              | Some r \<Rightarrow>
                  (case concurrently (during_run env) (emit (Run r) a2) of
                     Panic p a3 \<Rightarrow> Panic p a3
                   | Return u a3 \<Rightarrow>
                       (let a4 = (case run_result env of
                                    Some err \<Rightarrow>
                                      logger ErrorLevel ''Failed to run job: %s'' [ArgErr err] a3
                                  | None \<Rightarrow> a3)
                        in after_job (a4\<lparr>jobRunner := None\<rparr>)))))"
    unfolding run_job_def Let_def a2_def by simp
  show ?thesis
  proof (cases "snd (new_job_runner env)")
    case (Some err)
    then show ?thesis unfolding unfold by simp
  next
    case None
    with assms(2) j2 obtain r where r: "jobRunner a2 = Some r"
      by (auto simp add: runner_contract_def)
    have sr: "sound (emit (Run r) a2)" using s2 by (auto simp add: eff inv)
    from concurrently_returns [OF sr, of "during_run env"] obtain a3
      where a3: "concurrently (during_run env) (emit (Run r) a2) = Return () a3"
      by (cases "concurrently (during_run env) (emit (Run r) a2)") auto
    with steady_concurrently [of "emit (Run r) a2" "during_run env"] sr have s3: "sound a3"
      using steady_sound by fastforce
    define a4 where "a4 = (case run_result env of
                                    Some err \<Rightarrow>
                                      logger ErrorLevel ''Failed to run job: %s'' [ArgErr err] a3
                                  | None \<Rightarrow> a3)"
    have "sound (a4\<lparr>jobRunner := None\<rparr>)"
      using s3 by (auto simp add: a4_def eff inv split: option.splits)
    then have "returned (after_job (a4\<lparr>jobRunner := None\<rparr>))" by (rule after_job_returns)
    with None r a3 show ?thesis unfolding unfold a4_def by (simp add: Let_def)
  qed
qed

lemma accept_and_run_returns:
  assumes "sound a" and "runner_contract env"
  shows "returned (accept_and_run env job a)"
proof -
  let ?a1 = "logger InfoLevel ''Assigned job %s. Accepting...'' [ArgStr (ID job)]
                 (UpdateProcTitle (''job '' @ takeWhile (\<lambda>c. c \<noteq> CHR ''-'') (ID job)) a)"
  have s1: "sound ?a1" using assms(1) by (auto simp add: eff inv)
  obtain e acc a2 where r: "retry_Do 30 (accept_attempt env job) (None, ?a1) = (e, (acc, a2))"
    by (metis prod.exhaust)
  have "steady (snd (None :: api_Job option, ?a1))
          (snd (snd (retry_attempts 29 0 (accept_attempt env job) (None, ?a1))))"
    by (rule steady_retry) (rule steady_accept_attempt)
  with r have "steady ?a1 a2" by (simp add: retry_Do_def)
  with s1 have s2: "sound a2" by (rule steady_sound [rotated])
  show ?thesis
  proof (cases acc)
    case None
    with r show ?thesis by (simp add: accept_and_run_def Let_def)
  next
    case (Some accepted)
    with r run_job_returns [OF s2 assms(2), of accepted] show ?thesis
      by (simp add: accept_and_run_def Let_def)
  qed
qed

lemma Ping_returns:
  assumes "sound a" and "runner_contract env"
  shows "returned (Ping env a)"
proof (cases "pings_get env")
  case (Inl err)
  then show ?thesis by (simp add: Ping_def Let_def)
next
  case (Inr ping0)
  define a2 where "a2 = (emit (PingsGet (apiClient a)) (UpdateProcTitle ''pinging'' a))\<lparr>lastPing := Unix (now env)\<rparr>"
  define ping where "ping = fst (switch_endpoint env ping0 a2)"
  define a3 where "a3 = snd (switch_endpoint env ping0 a2)"
  define a4 where "a4 = (if Message ping \<noteq> [] then logger InfoLevel (Message ping) [] a3 else a3)"
  have s2: "sound a2" using assms(1) by (auto simp add: a2_def eff inv)
  have s3: "sound a3" using quiet_switch_endpoint [of a2 env ping0] s2
    unfolding a3_def by (rule quiet_sound)
  have s4: "sound a4" using s3 by (auto simp add: a4_def eff inv)
  have unfold: "Ping env a =
      (if Action ping = ''disconnect'' then Stop False a4
       else case Job ping of
              None \<Rightarrow> Return () (UpdateProcTitle ''idle'' a4)
            | Some job \<Rightarrow> accept_and_run env job a4)"
    using Inr unfolding Ping_def Let_def a4_def a3_def ping_def a2_def by simp
  show ?thesis
    unfolding unfold
    using Stop_returns [OF s4, of False] accept_and_run_returns [OF s4 assms(2)]
    by (simp split: option.splits)
qed

lemma turn_sound:
  "sound a \<Longrightarrow> sound (final (if \<not> stopping a then Ping env a else Return () a))"
  using quiet_sound [OF quiet_Ping [of a env]]
  by (auto simp add: eff inv)

lemma loop_sound: "sound a \<Longrightarrow> sound (state_of (Start_loop rs a))"
proof (induction rs arbitrary: a)
  case Nil
  then show ?case by simp
next
  case (Cons r rs)
  let ?turn = "if \<not> stopping a then Ping (ping_env r) a else Return () a"
  note s1 = turn_sound [OF Cons.prems, of "ping_env r"]
  show ?case
  proof (cases ?turn)
    case (Panic p a1)
    with s1 show ?thesis by simp
  next
    case (Return u a1)
    with s1 have a1: "sound a1" by simp
    note s2 = steady_sound [OF steady_concurrently [of a1 "waiting r"] a1]
    show ?thesis
    proof (cases "concurrently (waiting r) a1")
      case P: (Panic p a2)
      with Return s2 show ?thesis by simp
    next
      case R: (Return u2 a2)
      with s2 have a2: "sound a2" by simp
      then have t: "sound (emit TickerTick a2)"
        and d: "sound ((emit TickerStop a2)\<lparr>ticker := halted (ticker a2), running := False\<rparr>)"
        by (auto simp add: eff inv)
      from Cons.IH [OF t] d Return R show ?thesis by simp
    qed
  qed
qed

lemma loop_safe:
  "sound a \<Longrightarrow> \<forall>r\<in>set rs. runner_contract (ping_env r) \<Longrightarrow> \<not> panicked (Start_loop rs a)"
proof (induction rs arbitrary: a)
  case Nil
  then show ?case by simp
next
  case (Cons r rs)
  let ?turn = "if \<not> stopping a then Ping (ping_env r) a else Return () a"
  have c: "runner_contract (ping_env r)" using Cons.prems(2) by simp
  have "returned ?turn" using Ping_returns [OF Cons.prems(1) c] by simp
  then obtain a1 where turn: "?turn = Return () a1" by (cases ?turn) auto
  with turn_sound [OF Cons.prems(1), of "ping_env r"] have a1: "sound a1" by simp
  from concurrently_returns [OF a1, of "waiting r"] obtain a2
    where w: "concurrently (waiting r) a1 = Return () a2"
    by (cases "concurrently (waiting r) a1") auto
  with steady_sound [OF steady_concurrently [of a1 "waiting r"] a1] have "sound a2" by simp
  then have t: "sound (emit TickerTick a2)" by (auto simp add: eff inv)
  have "\<not> panicked (Start_loop rs (emit TickerTick a2))"
    using Cons.IH [OF t] Cons.prems(2) by simp
  with turn w show ?case by simp
qed

lemma Start_init_sound:
  assumes "stop a = Open" and "\<not> stopping a" and "closes a = 0"
  shows "stop (final (Start_init a)) = Open \<and> \<not> stopping (final (Start_init a))
         \<and> closes (final (Start_init a)) = 0
         \<and> (returned (Start_init a) \<longrightarrow> sound (final (Start_init a)))"
  using assms by (auto simp add: Start_init_def Let_def eff inv)

lemma Start_sound:
  assumes "stop a = Open" and "\<not> stopping a" and "closes a = 0"
  shows "stop (state_of (Start env a)) = (if stopping (state_of (Start env a)) then Closed else Open)
         \<and> closes (state_of (Start env a)) = (if stopping (state_of (Start env a)) then 1 else 0)"
proof (cases "collector_start env")
  case (Some err)
  with assms show ?thesis by (simp add: Start_def eff closes_def)
next
  case None
  have m: "stop (emit MetricsStart a) = Open" "\<not> stopping (emit MetricsStart a)"
    "closes (emit MetricsStart a) = 0"
    using assms by (simp_all add: eff closes_def)
  note i = Start_init_sound [OF m]
  show ?thesis
  proof (cases "Start_init (emit MetricsStart a)")
    case (Panic p a1)
    with None i show ?thesis by (simp add: Start_def eff closes_def)
  next
    case (Return u a1)
    with i have "sound a1" by simp
    from loop_sound [OF this, of "rounds env"]
    have s: "sound (state_of (Start_loop (rounds env) a1))" .
    show ?thesis
    proof (cases "Start_loop (rounds env) a1")
      case (Waiting a2)
      with None Return s show ?thesis by (simp add: Start_def sound_def)
    next
      case (Done out)
      with None Return s show ?thesis
        by (cases out) (auto simp add: Start_def eff inv)
    qed
  qed
qed

lemma Start_safe:
  assumes "stop a = Open" and "\<not> stopping a" and "closes a = 0"
    and "0 <s seconds (PingInterval (agent a))"
    and "\<forall>r\<in>set (rounds env). runner_contract (ping_env r)"
  shows "\<not> panicked (Start env a)"
proof (cases "collector_start env")
  case (Some err)
  then show ?thesis by (simp add: Start_def)
next
  case None
  have m: "stop (emit MetricsStart a) = Open" "\<not> stopping (emit MetricsStart a)"
    "closes (emit MetricsStart a) = 0"
    using assms by (simp_all add: eff closes_def)
  note i = Start_init_sound [OF m]
  have "returned (Start_init (emit MetricsStart a))"
    using assms(4) by (simp add: Start_init_def Let_def eff word_sle_eq word_sless_alt)
  then obtain a1 where r: "Start_init (emit MetricsStart a) = Return () a1"
    by (cases "Start_init (emit MetricsStart a)") auto
  with i have "sound a1" by simp
  from loop_safe [OF this assms(5)] have l: "\<not> panicked (Start_loop (rounds env) a1)" .
  show ?thesis
  proof (cases "Start_loop (rounds env) a1")
    case (Waiting a2)
    with None r show ?thesis by (simp add: Start_def)
  next
    case (Done out)
    with None r l show ?thesis by (cases out) (simp_all add: Start_def)
  qed
qed

subsection \<open>Cancelling the running job\<close>

lemma runless_iff: "runless r a b \<longleftrightarrow> (\<exists>es. effects b = effects a @ es \<and> Run r \<notin> set es)"
proof
  assume "runless r a b"
  then have "effects b = effects a @ drop (length (effects a)) (effects b)
      \<and> Run r \<notin> set (drop (length (effects a)) (effects b))"
    by (metis append_take_drop_id runless_def)
  then show "\<exists>es. effects b = effects a @ es \<and> Run r \<notin> set es" by blast
next
  assume "\<exists>es. effects b = effects a @ es \<and> Run r \<notin> set es"
  then show "runless r a b" by (auto simp add: runless_def)
qed

lemma runless_refl: "runless r a a"
  by (simp add: runless_def)

lemma runless_trans: "runless r a b \<Longrightarrow> runless r b c \<Longrightarrow> runless r a c"
  unfolding runless_iff by auto

lemma runless_Stop: "runless r a (final (Stop g a))"
  by (cases "jobRunner a"; cases g; cases "stop a") (simp_all add: runless_def Stop_def Let_def eff)

lemma runless_ping_failed: "runless r a (ping_failed env err a)"
  by (simp add: runless_def ping_failed_def Let_def eff)

lemma runless_switch_endpoint: "runless r a (snd (switch_endpoint env ping a))"
  by (simp add: runless_def switch_endpoint_def Let_def eff split: sum.splits)

lemma runless_accept_attempt:
  "runless r (snd s) (snd (snd (snd (accept_attempt env job i s))))"
  by (simp add: runless_def accept_attempt_def Let_def eff split: option.splits)

lemma runless_accept:
  "runless r a (snd (snd (retry_Do 30 (accept_attempt env job) (None, a))))"
proof -
  have "runless r a (snd (snd (retry_attempts 29 0 (accept_attempt env job) (None, a))))"
  proof (rule retry_invariant [where P = "runless r a"])
    fix i and s :: "api_Job option \<times> AgentWorker"
    assume "runless r a (snd s)"
    then show "runless r a (snd (snd (snd (accept_attempt env job i s))))"
      using runless_accept_attempt runless_trans by blast
  next
    show "runless r a (snd (None :: api_Job option, a))" by (simp add: runless_refl)
  qed
  then show ?thesis by (simp add: retry_Do_def)
qed

lemma concurrently_cancels_later:
  assumes "jobRunner a = Some r" and "sound a" and "CallStop False \<in> set cs"
  shows "\<exists>mid post. effects (final (concurrently cs a)) = effects a @ mid @ Cancel r # post"
  using assms
proof (induction cs arbitrary: a)
  case Nil
  then show ?case by simp
next
  case (Cons c cs)
  from conc_step_returns [OF Cons.prems(2), of c] obtain a1 where a1: "conc_step c a = Return () a1"
    by (cases "conc_step c a") auto
  have j1: "jobRunner a1 = Some r"
    using jobRunner_conc_step [of c a] a1 Cons.prems(1) by simp
  have s1: "sound a1"
    using steady_sound [OF steady_conc_step [of a c] Cons.prems(2)] a1 by simp
  from quiet_extends [OF steady_quiet [OF steady_conc_step [of a c]]] a1 obtain es1
    where e1: "effects a1 = effects a @ es1" by auto
  show ?case
  proof (cases "c = CallStop False")
    case True
    have "\<exists>post. effects (final (Stop False a)) =
        effects a @ [Log InfoLevel ''Forcefully stopping agent. The current job will be canceled before disconnecting...'' []] @ Cancel r # post"
      using Cons.prems(1) by (cases "stop a") (simp_all add: Stop_def Let_def eff)
    with True a1 obtain post1 where p1: "effects a1 =
        effects a @ [Log InfoLevel ''Forcefully stopping agent. The current job will be canceled before disconnecting...'' []] @ Cancel r # post1"
      by auto
    from concurrently_extends [of cs a1] obtain es
      where "effects (final (concurrently cs a1)) = effects a1 @ es" by blast
    with p1 a1 have "effects (final (concurrently (c # cs) a)) =
        effects a @ [Log InfoLevel ''Forcefully stopping agent. The current job will be canceled before disconnecting...'' []] @ Cancel r # (post1 @ es)"
      by simp
    then show ?thesis by blast
  next
    case False
    with Cons.prems(3) have "CallStop False \<in> set cs" by simp
    from Cons.IH [OF j1 s1 this] obtain mid post
      where "effects (final (concurrently cs a1)) = effects a1 @ mid @ Cancel r # post" by blast
    with a1 e1 have "effects (final (concurrently (c # cs) a)) = effects a @ (es1 @ mid) @ Cancel r # post"
      by simp
    then show ?thesis by blast
  qed
qed

lemma run_job_cancels:
  assumes "sound a" and "fst (new_job_runner env) = Some r"
    and "CallStop False \<in> set (during_run env)"
  shows "runless r a (final (run_job env accepted a))
         \<or> (\<exists>pre mid post. effects (final (run_job env accepted a)) =
               effects a @ pre @ Run r # mid @ Cancel r # post)"
proof -
  let ?tags = "[(''pipeline'', env_get (Env accepted) ''BUILDKITE_PIPELINE_SLUG''),
             (''org'', env_get (Env accepted) ''BUILDKITE_ORGANIZATION_SLUG''),
             (''branch'', env_get (Env accepted) ''BUILDKITE_BRANCH''),
             (''source'', env_get (Env accepted) ''BUILDKITE_SOURCE'')]"
  define a2 where "a2 =
    (case disconnectTimeoutTimer
            ((emit (CallNewJobRunner ?tags accepted (Conf_JobRunnerConfig (conf a))) a)
               \<lparr>jobRunner := fst (new_job_runner env)\<rparr>) of
       None \<Rightarrow> (emit (CallNewJobRunner ?tags accepted (Conf_JobRunnerConfig (conf a))) a)
               \<lparr>jobRunner := fst (new_job_runner env)\<rparr>
     | Some (Timer d r) \<Rightarrow>
         (emit (TimerStop TheDisconnectTimeoutTimer)
            (logger DebugLevel
               ''[DisconnectionTimer] A job was assigned and accepted, stopping timer...''
               [] ((emit (CallNewJobRunner ?tags accepted (Conf_JobRunnerConfig (conf a))) a)
               \<lparr>jobRunner := fst (new_job_runner env)\<rparr>)))
           \<lparr>disconnectTimeoutTimer := Some (Timer d False)\<rparr>)"
  have s2: "sound a2" and j2: "jobRunner a2 = fst (new_job_runner env)"
    using assms(1)
    by (auto simp add: a2_def eff inv split: option.splits timer.splits)
  have r2: "runless r a a2"
    by (auto simp add: a2_def runless_def eff split: option.splits timer.splits)
  then obtain pre where pre: "effects a2 = effects a @ pre"
    unfolding runless_iff by blast
  have unfold: "run_job env accepted a =
     (case snd (new_job_runner env) of
           Some err \<Rightarrow> Return () (logger ErrorLevel ''Failed to initialize job: %s'' [ArgErr err] a2)
         | None \<Rightarrow>
             (case jobRunner a2 of
                None \<Rightarrow> Panic NilPointerDereference a2
              | Some r \<Rightarrow>
                  (case concurrently (during_run env) (emit (Run r) a2) of
                     Panic p a3 \<Rightarrow> Panic p a3
                   | Return u a3 \<Rightarrow>
                       (let a4 = (case run_result env of
                                    Some err \<Rightarrow>
                                      logger ErrorLevel ''Failed to run job: %s'' [ArgErr err] a3
                                  | None \<Rightarrow> a3)
                        in after_job (a4\<lparr>jobRunner := None\<rparr>)))))"
    unfolding run_job_def Let_def a2_def by simp
  show ?thesis
  proof (cases "snd (new_job_runner env)")
    case (Some err)
    have "runless r a2 (logger ErrorLevel ''Failed to initialize job: %s'' [ArgErr err] a2)"
      by (simp add: runless_def eff)
    with r2 Some show ?thesis unfolding unfold using runless_trans by auto
  next
    case None
    have r: "jobRunner a2 = Some r" using j2 assms(2) by simp
    have sr: "sound (emit (Run r) a2)" using s2 by (auto simp add: eff inv)
    have jr: "jobRunner (emit (Run r) a2) = Some r" using r by (simp add: eff)
    from concurrently_returns [OF sr, of "during_run env"] obtain a3
      where a3: "concurrently (during_run env) (emit (Run r) a2) = Return () a3"
      by (cases "concurrently (during_run env) (emit (Run r) a2)") auto
    from concurrently_cancels_later [OF jr sr assms(3)] a3 obtain mid post
      where e3: "effects a3 = effects (emit (Run r) a2) @ mid @ Cancel r # post" by auto
    define a4 where "a4 = (case run_result env of
                                    Some err \<Rightarrow>
                                      logger ErrorLevel ''Failed to run job: %s'' [ArgErr err] a3
                                  | None \<Rightarrow> a3)"
    have "\<exists>es4. effects (a4\<lparr>jobRunner := None\<rparr>) = effects a3 @ es4"
      by (cases "run_result env") (simp_all add: a4_def eff)
    then obtain es4 where e4: "effects (a4\<lparr>jobRunner := None\<rparr>) = effects a3 @ es4"
      by blast
    from quiet_extends [OF steady_quiet [OF steady_after_job [of "a4\<lparr>jobRunner := None\<rparr>"]]]
    obtain es5 where e5: "effects (final (after_job (a4\<lparr>jobRunner := None\<rparr>))) =
        effects (a4\<lparr>jobRunner := None\<rparr>) @ es5" by blast
    have "run_job env accepted a = after_job (a4\<lparr>jobRunner := None\<rparr>)"
      using None r a3 unfolding unfold a4_def by (simp add: Let_def)
    with e5 e4 e3 pre have "effects (final (run_job env accepted a)) =
        effects a @ pre @ Run r # mid @ Cancel r # (post @ es4 @ es5)"
      by (simp add: eff)
    then show ?thesis by blast
  qed
qed

lemma accept_and_run_cancels:
  assumes "sound a" and "fst (new_job_runner env) = Some r"
    and "CallStop False \<in> set (during_run env)"
  shows "runless r a (final (accept_and_run env job a))
         \<or> (\<exists>pre mid post. effects (final (accept_and_run env job a)) =
               effects a @ pre @ Run r # mid @ Cancel r # post)"
proof -
  let ?a1 = "logger InfoLevel ''Assigned job %s. Accepting...'' [ArgStr (ID job)]
                 (UpdateProcTitle (''job '' @ takeWhile (\<lambda>c. c \<noteq> CHR ''-'') (ID job)) a)"
  have s1: "sound ?a1" using assms(1) by (auto simp add: eff inv)
  have r1: "runless r a ?a1" by (simp add: runless_def eff)
  obtain e acc a2 where r: "retry_Do 30 (accept_attempt env job) (None, ?a1) = (e, (acc, a2))"
    by (metis prod.exhaust)
  have "steady (snd (None :: api_Job option, ?a1))
          (snd (snd (retry_attempts 29 0 (accept_attempt env job) (None, ?a1))))"
    by (rule steady_retry) (rule steady_accept_attempt)
  with r have "steady ?a1 a2" by (simp add: retry_Do_def)
  with s1 have s2: "sound a2" by (rule steady_sound [rotated])
  from runless_accept [of r ?a1 env job] r have "runless r ?a1 a2" by simp
  with r1 have r2: "runless r a a2" by (rule runless_trans)
  then obtain es where es: "effects a2 = effects a @ es" "Run r \<notin> set es"
    unfolding runless_iff by blast
  show ?thesis
  proof (cases acc)
    case None
    have "runless r a2 (logger ErrorLevel ''Failed to accept job'' [] a2)"
      by (simp add: runless_def eff)
    with r2 have "runless r a (logger ErrorLevel ''Failed to accept job'' [] a2)"
      by (rule runless_trans)
    with None r show ?thesis by (simp add: accept_and_run_def Let_def)
  next
    case (Some accepted)
    with r have eq: "accept_and_run env job a = run_job env accepted a2"
      by (simp add: accept_and_run_def Let_def)
    from run_job_cancels [OF s2 assms(2) assms(3), of accepted]
    show ?thesis
    proof
      assume "runless r a2 (final (run_job env accepted a2))"
      with r2 have "runless r a (final (run_job env accepted a2))" by (rule runless_trans)
      then show ?thesis unfolding eq by simp
    next
      assume "\<exists>pre mid post. effects (final (run_job env accepted a2)) =
               effects a2 @ pre @ Run r # mid @ Cancel r # post"
      then obtain pre mid post where "effects (final (run_job env accepted a2)) =
               effects a2 @ pre @ Run r # mid @ Cancel r # post" by blast
      with es have "effects (final (run_job env accepted a2)) =
               effects a @ (es @ pre) @ Run r # mid @ Cancel r # post" by simp
      then show ?thesis unfolding eq by blast
    qed
  qed
qed

lemma Ping_cancels:
  assumes "sound a" and "fst (new_job_runner env) = Some r"
    and "CallStop False \<in> set (during_run env)"
  shows "runless r a (final (Ping env a))
         \<or> (\<exists>pre mid post. effects (final (Ping env a)) =
               effects a @ pre @ Run r # mid @ Cancel r # post)"
proof (cases "pings_get env")
  case (Inl err)
  have "runless r a (emit (PingsGet (apiClient a)) (UpdateProcTitle ''pinging'' a))"
    by (simp add: runless_def eff)
  then have "runless r a (ping_failed env err (emit (PingsGet (apiClient a)) (UpdateProcTitle ''pinging'' a)))"
    using runless_ping_failed runless_trans by blast
  with Inl show ?thesis by (simp add: Ping_def Let_def)
next
  case (Inr ping0)
  define a2 where "a2 = (emit (PingsGet (apiClient a)) (UpdateProcTitle ''pinging'' a))\<lparr>lastPing := Unix (now env)\<rparr>"
  define ping where "ping = fst (switch_endpoint env ping0 a2)"
  define a3 where "a3 = snd (switch_endpoint env ping0 a2)"
  define a4 where "a4 = (if Message ping \<noteq> [] then logger InfoLevel (Message ping) [] a3 else a3)"
  have s2: "sound a2" using assms(1) by (auto simp add: a2_def eff inv)
  have s3: "sound a3" using quiet_switch_endpoint [of a2 env ping0] s2
    unfolding a3_def by (rule quiet_sound)
  have s4: "sound a4" using s3 by (auto simp add: a4_def eff inv)
  have "runless r a a2" by (simp add: a2_def runless_def eff)
  moreover have "runless r a2 a3" unfolding a3_def by (rule runless_switch_endpoint)
  moreover have "runless r a3 a4" by (simp add: a4_def runless_def eff)
  ultimately have r4: "runless r a a4" using runless_trans by blast
  then obtain es where es: "effects a4 = effects a @ es"
    unfolding runless_iff by blast
  have unfold: "Ping env a =
      (if Action ping = ''disconnect'' then Stop False a4
       else case Job ping of
              None \<Rightarrow> Return () (UpdateProcTitle ''idle'' a4)
            | Some job \<Rightarrow> accept_and_run env job a4)"
    using Inr unfolding Ping_def Let_def a4_def a3_def ping_def a2_def by simp
  show ?thesis
  proof (cases "Action ping = ''disconnect''")
    case True
    with runless_trans [OF r4 runless_Stop [of r a4 False]] show ?thesis
      unfolding unfold by simp
  next
    case False
    show ?thesis
    proof (cases "Job ping")
      case None
      have "runless r a4 (UpdateProcTitle ''idle'' a4)" by (simp add: runless_def eff)
      with r4 have "runless r a (UpdateProcTitle ''idle'' a4)" by (rule runless_trans)
      with False None show ?thesis unfolding unfold by simp
    next
      case (Some job)
      with False have eq: "Ping env a = accept_and_run env job a4" unfolding unfold by simp
      from accept_and_run_cancels [OF s4 assms(2) assms(3), of job]
      show ?thesis
      proof
        assume "runless r a4 (final (accept_and_run env job a4))"
        with r4 have "runless r a (final (accept_and_run env job a4))" by (rule runless_trans)
        then show ?thesis unfolding eq by simp
      next
        assume "\<exists>pre mid post. effects (final (accept_and_run env job a4)) =
               effects a4 @ pre @ Run r # mid @ Cancel r # post"
        then obtain pre mid post where "effects (final (accept_and_run env job a4)) =
               effects a4 @ pre @ Run r # mid @ Cancel r # post" by blast
        with es have "effects (final (accept_and_run env job a4)) =
               effects a @ (es @ pre) @ Run r # mid @ Cancel r # post" by simp
        then show ?thesis unfolding eq by blast
      qed
    qed
  qed
qed

lemma loop_returns_last:
  "Start_loop rs a = Done (Return e b) \<Longrightarrow> \<exists>es. effects b = effects a @ es @ [TickerStop]"
proof (induction rs arbitrary: a)
  case Nil
  then show ?case by simp
next
  case (Cons r rs)
  let ?turn = "if \<not> stopping a then Ping (ping_env r) a else Return () a"
  from turn_extends [of a "ping_env r"] obtain es1
    where e1: "effects (final ?turn) = effects a @ es1" by blast
  show ?case
  proof (cases ?turn)
    case (Panic p a1)
    with Cons.prems show ?thesis by simp
  next
    case (Return u a1)
    with e1 have a1: "effects a1 = effects a @ es1" by simp
    from concurrently_extends [of "waiting r" a1] obtain es2
      where e2: "effects (final (concurrently (waiting r) a1)) = effects a1 @ es2" by blast
    show ?thesis
    proof (cases "concurrently (waiting r) a1")
      case P: (Panic p a2)
      with Return Cons.prems show ?thesis by simp
    next
      case R: (Return u2 a2)
      with e2 a1 have a2: "effects a2 = effects a @ es1 @ es2" by simp
      show ?thesis
      proof (cases "take_stop r \<and> stop a2 = Closed")
        case True
        with Return R Cons.prems
        have "b = (emit TickerStop a2)\<lparr>ticker := halted (ticker a2), running := False\<rparr>"
          by simp
        with a2 have "effects b = effects a @ (es1 @ es2) @ [TickerStop]" by (simp add: eff)
        then show ?thesis by blast
      next
        case False
        with Return R Cons.prems
        have "Start_loop rs (emit TickerTick a2) = Done (Return e b)" by auto
        from Cons.IH [OF this] obtain es3
          where "effects b = effects (emit TickerTick a2) @ es3 @ [TickerStop]" by blast
        with a2 have "effects b = effects a @ (es1 @ es2 @ TickerTick # es3) @ [TickerStop]"
          by (simp add: eff)
        then show ?thesis by blast
      qed
    qed
  qed
qed

lemma loop_split:
  "Start_loop rs1 a = Waiting a' \<Longrightarrow> Start_loop (rs1 @ rs2) a = Start_loop rs2 a'"
proof (induction rs1 arbitrary: a)
  case Nil
  then show ?case by simp
next
  case (Cons r rs)
  let ?turn = "if \<not> stopping a then Ping (ping_env r) a else Return () a"
  show ?case
  proof (cases ?turn)
    case (Panic p a1)
    with Cons.prems show ?thesis by simp
  next
    case (Return u a1)
    show ?thesis
    proof (cases "concurrently (waiting r) a1")
      case P: (Panic p a2)
      with Return Cons.prems show ?thesis by simp
    next
      case R: (Return u2 a2)
      show ?thesis
      proof (cases "take_stop r \<and> stop a2 = Closed")
        case True
        with Return R Cons.prems show ?thesis by simp
      next
        case False
        with Return R Cons.prems
        have "Start_loop rs (emit TickerTick a2) = Waiting a'" by auto
        from Cons.IH [OF this] Return R False show ?thesis by auto
      qed
    qed
  qed
qed

lemma turn_cancels:
  assumes "sound a" and "\<not> stopping a" and "fst (new_job_runner (ping_env rd)) = Some r"
    and "CallStop False \<in> set (during_run (ping_env rd))"
    and "Run r \<in> set (drop (length (effects a)) (effects (final (Ping (ping_env rd) a))))"
    and "Start_loop (rd # rs) a = Done (Return e b)"
  shows "\<exists>pre mid post. effects b = effects a @ pre @ Run r # mid @ Cancel r # post @ [TickerStop]"
proof -
  from assms(5) have "\<not> runless r a (final (Ping (ping_env rd) a))"
    by (simp add: runless_def)
  with Ping_cancels [OF assms(1) assms(3) assms(4)] obtain pre mid post
    where p: "effects (final (Ping (ping_env rd) a)) = effects a @ pre @ Run r # mid @ Cancel r # post"
    by blast
  from assms(6) assms(2) obtain a1 where a1: "Ping (ping_env rd) a = Return () a1"
    by (cases "Ping (ping_env rd) a") auto
  from assms(6) assms(2) a1 obtain a2 where a2: "concurrently (waiting rd) a1 = Return () a2"
    by (cases "concurrently (waiting rd) a1") auto
  from concurrently_extends [of "waiting rd" a1] a2 obtain es2
    where e2: "effects a2 = effects a1 @ es2" by auto
  show ?thesis
  proof (cases "take_stop rd \<and> stop a2 = Closed")
    case True
    with assms(6) assms(2) a1 a2
    have "b = (emit TickerStop a2)\<lparr>ticker := halted (ticker a2), running := False\<rparr>"
      by simp
    with e2 p a1 have "effects b = effects a @ pre @ Run r # mid @ Cancel r # (post @ es2) @ [TickerStop]"
      by (simp add: eff)
    then show ?thesis by blast
  next
    case False
    with assms(6) assms(2) a1 a2
    have "Start_loop rs (emit TickerTick a2) = Done (Return e b)" by auto
    from loop_returns_last [OF this] obtain es3
      where "effects b = effects (emit TickerTick a2) @ es3 @ [TickerStop]" by blast
    with e2 p a1 have "effects b =
        effects a @ pre @ Run r # mid @ Cancel r # (post @ es2 @ TickerTick # es3) @ [TickerStop]"
      by (simp add: eff)
    then show ?thesis by blast
  qed
qed

subsection \<open>The example runs\<close>

lemma started: "started_worker =
  example_worker\<lparr>running := True, ticker := Some (Timer 5000000000 True),
     disconnectTimeoutTimer := Some (Timer 60000000000 True),
     idleTimer := Some (Timer 30000000000 True),
     tasks := [Heartbeater, DisconnectWatcher, IdleWatcher],
     effects := [TickerNew 5000000000, TimerNew TheDisconnectTimeoutTimer 60000000000,
       Log DebugLevel ''[DisconnectionTimer] Started for %d seconds...'' [ArgInt 60],
       TimerNew TheIdleTimer 30000000000,
       Log InfoLevel ''Waiting for job to be assigned...'' [],
       Log InfoLevel ''The agent will automatically disconnect after %d seconds if no job is assigned'' [ArgInt 60]]\<rparr>"
  by (simp add: started_worker_def Start_init_def example_worker_def NewAgentWorker_def
      example_agent_def example_conf_def Let_def seconds_def Second_def eff NewAPIClient_def
      word_sle_eq word_sless_alt)

lemma one_job_run:
  "Start one_job example_worker =
     Done (Return None (state_of (Start one_job example_worker)))
   \<and> closes (state_of (Start one_job example_worker)) = 1
   \<and> \<not> running (state_of (Start one_job example_worker))"
  by (simp add: one_job_def idle_round_def job_round_def job_env_def no_ping_def example_job_def
      Start_def Start_init_def example_worker_def NewAgentWorker_def
      example_agent_def example_conf_def
      Ping_def switch_endpoint_def accept_and_run_def retry_Do_def retry_attempts_numeral
      accept_attempt_def run_job_def after_job_def Stop_def env_get_def Unix_def halted_def
      Let_def eff NewAPIClient_def word_eval closes_def)

subsection \<open>The claims\<close>

text \<open>
  C1. On a worker whose stop channel is open and which is not stopping (as
  \<^verbatim>\<open>NewAgentWorker\<close> makes it), any one or more calls of \<^verbatim>\<open>Stop\<close>, graceful or forceful in
  any mix, with any job runner in place at each call, all return, and together close the
  stop channel exactly once. The close is the last thing the first call does, and that
  call is the one that sets \<^verbatim>\<open>stopping\<close>. And wherever a run of \<^verbatim>\<open>Start\<close> on a new worker
  has got to, under any schedule of pings, jobs, timers and calls of \<^verbatim>\<open>Stop\<close> from other
  tasks, the channel has been closed once if the worker is stopping and never if it is not.
\<close>

theorem Stop_closes_once:
  assumes "stop a = Open" and "\<not> stopping a"
  shows "returned (Stop g (a\<lparr>jobRunner := j\<rparr>))
         \<and> stopping (final (Stop g (a\<lparr>jobRunner := j\<rparr>)))
         \<and> last (effects (final (Stop g (a\<lparr>jobRunner := j\<rparr>)))) = CloseStop
         \<and> closes (final (Stop g (a\<lparr>jobRunner := j\<rparr>))) = closes a + 1
         \<and> returned (Stops ((g, j) # cs) a)
         \<and> stopping (final (Stops ((g, j) # cs) a))
         \<and> stop (final (Stops ((g, j) # cs) a)) = Closed
         \<and> closes (final (Stops ((g, j) # cs) a)) = closes a + 1
         \<and> stop (state_of (Start env (NewAgentWorker ag c))) =
             (if stopping (state_of (Start env (NewAgentWorker ag c))) then Closed else Open)
         \<and> closes (state_of (Start env (NewAgentWorker ag c))) =
             (if stopping (state_of (Start env (NewAgentWorker ag c))) then 1 else 0)"
proof -
  let ?b = "a\<lparr>jobRunner := j\<rparr>"
  have b: "stop ?b = Open" "\<not> stopping ?b" "closes ?b = closes a"
    using assms by (simp_all add: closes_def)
  note first = Stop_first [OF b(1) b(2), of g]
  obtain a1 where a1: "Stop g ?b = Return () a1"
    using first by (cases "Stop g ?b") auto
  with first have s1: "stopping a1" "stop a1 = Closed" "closes a1 = closes a + 1"
    using b(3) by simp_all
  have n: "stop (NewAgentWorker ag c) = Open" "\<not> stopping (NewAgentWorker ag c)"
    "closes (NewAgentWorker ag c) = 0"
    by (simp_all add: NewAgentWorker_def Let_def closes_def)
  from Stops_later [OF s1(1), of cs] a1 s1 first b(3) Start_sound [OF n, of env]
  show ?thesis by simp
qed

theorem Stop_closes_once_witness:
  "stop example_worker = Open \<and> \<not> stopping example_worker
   \<and> closes (final (Stops [(True, Some (MkJobRunner 1)), (False, Some (MkJobRunner 1)),
                            (True, None)] example_worker)) = 1
   \<and> stopping (state_of (Start one_job (NewAgentWorker example_agent example_conf)))
   \<and> closes (state_of (Start one_job (NewAgentWorker example_agent example_conf))) = 1"
proof -
  have h: "stop example_worker = Open" "\<not> stopping example_worker" "closes example_worker = 0"
    by (simp_all add: example_worker_def NewAgentWorker_def closes_def Let_def)
  have run: "closes (state_of (Start one_job (NewAgentWorker example_agent example_conf))) = 1"
    using one_job_run by (simp add: example_worker_def)
  note t = Stop_closes_once [OF h(1) h(2), of True "Some (MkJobRunner 1)"
      "[(False, Some (MkJobRunner 1)), (True, None)]" one_job example_agent example_conf]
  from t have "closes (final (Stops [(True, Some (MkJobRunner 1)), (False, Some (MkJobRunner 1)),
                            (True, None)] example_worker)) = closes example_worker + 1"
    by blast
  with h(3) have a: "closes (final (Stops [(True, Some (MkJobRunner 1)),
      (False, Some (MkJobRunner 1)), (True, None)] example_worker)) = 1"
    by (simp del: Stops.simps)
  have once: "n = (if b then 1 else 0) \<Longrightarrow> n = 1 \<Longrightarrow> b" for n :: nat and b
    by (cases b) simp_all
  from t have "closes (state_of (Start one_job (NewAgentWorker example_agent example_conf))) =
      (if stopping (state_of (Start one_job (NewAgentWorker example_agent example_conf)))
       then 1 else 0)"
    by blast
  from once [OF this run]
  have st: "stopping (state_of (Start one_job (NewAgentWorker example_agent example_conf)))" .
  from h(1) h(2) a st run show ?thesis by blast
qed

text \<open>
  C2, as stated, fails: a forceful \<^verbatim>\<open>Stop\<close> on a worker that is already stopping and whose
  job is still running logs a line and then calls \<^verbatim>\<open>Cancel\<close> on the job runner.
\<close>

theorem Stop_again_cancels_counterexample:
  "stopping stopping_worker
   \<and> jobRunner stopping_worker = Some (MkJobRunner 1)
   \<and> effects (final (Stop False stopping_worker)) =
       effects stopping_worker @
       [Log InfoLevel ''Forcefully stopping agent. The current job will be canceled before disconnecting...'' [],
        Cancel (MkJobRunner 1)]"
  by (simp add: stopping_worker_def busy_worker_def example_worker_def NewAgentWorker_def
      Stop_def Let_def eff)

text \<open>
  C2, amended. A call of \<^verbatim>\<open>Stop\<close> on a worker that is already stopping returns with every
  field of the worker as it was: it does not close the stop channel and does not update
  the process title. It emits one log line, and a forceful call that finds a job runner
  also calls \<^verbatim>\<open>Cancel\<close> on it.
\<close>

theorem Stop_again:
  assumes "stopping a"
  shows "Stop g a = Return ()
           (a\<lparr>effects := effects a @
                 (if g then [Log WarnLevel ''Agent is already gracefully stopping...'' []]
                  else case jobRunner a of
                         Some r \<Rightarrow>
                           [Log InfoLevel ''Forcefully stopping agent. The current job will be canceled before disconnecting...'' [],
                            Cancel r]
                       | None \<Rightarrow>
                           [Log InfoLevel ''Forcefully stopping agent. Since there is no job running, the agent will disconnect immediately'' []])\<rparr>)"
  using assms
  by (cases "jobRunner a"; cases g) (simp_all add: Stop_def Let_def eff)

theorem Stop_again_witness:
  "stopping stopping_worker
   \<and> Stop True stopping_worker = Return ()
        (stopping_worker\<lparr>effects := effects stopping_worker @
           [Log WarnLevel ''Agent is already gracefully stopping...'' []]\<rparr>)"
  using Stop_again [of stopping_worker True]
  by (simp add: stopping_worker_def busy_worker_def example_worker_def NewAgentWorker_def
      Stop_def Let_def eff)

text \<open>
  C3, as stated, fails. With \<^verbatim>\<open>DisconnectAfterJob\<close> set and an idle timeout of 30 seconds, a
  job that ran leaves the worker stopping, the stop channel closed and the idle timer
  reset; a job whose runner cannot be made leaves the worker not stopping, the channel
  open and the idle timer as it was.
\<close>

theorem constructor_error_counterexample:
  "DisconnectAfterJob (conf started_worker)
   \<and> 0 <s DisconnectAfterIdleTimeout (conf started_worker)
   \<and> stopping job_done_worker
   \<and> CloseStop \<in> set (effects job_done_worker)
   \<and> TimerReset TheIdleTimer 30000000000 \<in> set (effects job_done_worker)
   \<and> Ping broken_runner_env started_worker = Return ()
        (started_worker
           \<lparr>lastPing := 65,
            disconnectTimeoutTimer := Some (Timer 60000000000 False),
            effects := effects started_worker @
              [ProcTitle ''pinging'', PingsGet (apiClient started_worker), ProcTitle ''job abc'',
               Log InfoLevel ''Assigned job %s. Accepting...'' [ArgStr ''abc-123''],
               JobsAccept (apiClient started_worker) example_job,
               CallNewJobRunner
                 [(''pipeline'', []), (''org'', []), (''branch'', ''main''), (''source'', [])]
                 example_job (MkJobRunnerConfig 0),
               Log DebugLevel
                 ''[DisconnectionTimer] A job was assigned and accepted, stopping timer...'' [],
               TimerStop TheDisconnectTimeoutTimer,
               Log ErrorLevel ''Failed to initialize job: %s'' [ArgErr (Err ''no temporary file'')]]\<rparr>)"
  by (simp add: job_done_worker_def broken_runner_env_def job_env_def no_ping_def example_job_def
      started example_worker_def NewAgentWorker_def example_agent_def example_conf_def
      Ping_def switch_endpoint_def accept_and_run_def retry_Do_def retry_attempts_numeral
      accept_attempt_def run_job_def after_job_def Stop_def env_get_def Unix_def
      Let_def eff NewAPIClient_def word_eval)

text \<open>
  C3, amended. When \<^verbatim>\<open>NewJobRunner\<close> returns an error for an accepted job, the worker stops
  the disconnect timer if it has one, logs the error and returns to the ping loop.
  \<^verbatim>\<open>jobRunner\<close> holds whatever \<^verbatim>\<open>NewJobRunner\<close> returned; no \<^verbatim>\<open>Stop\<close> is initiated and the
  idle timer is not reset.
\<close>

theorem run_job_constructor_error:
  assumes "snd (new_job_runner env) = Some err"
  shows "run_job env accepted a = Return ()
           (a\<lparr>jobRunner := fst (new_job_runner env),
               disconnectTimeoutTimer :=
                 (case disconnectTimeoutTimer a of
                    None \<Rightarrow> None
                  | Some (Timer d r) \<Rightarrow> Some (Timer d False)),
               effects := effects a @
                 [CallNewJobRunner
                    [(''pipeline'', env_get (Env accepted) ''BUILDKITE_PIPELINE_SLUG''),
                     (''org'', env_get (Env accepted) ''BUILDKITE_ORGANIZATION_SLUG''),
                     (''branch'', env_get (Env accepted) ''BUILDKITE_BRANCH''),
                     (''source'', env_get (Env accepted) ''BUILDKITE_SOURCE'')]
                    accepted (Conf_JobRunnerConfig (conf a))] @
                 (case disconnectTimeoutTimer a of
                    None \<Rightarrow> []
                  | Some t \<Rightarrow>
                      [Log DebugLevel
                         ''[DisconnectionTimer] A job was assigned and accepted, stopping timer...'' [],
                       TimerStop TheDisconnectTimeoutTimer]) @
                 [Log ErrorLevel ''Failed to initialize job: %s'' [ArgErr err]]\<rparr>)"
  using assms
  by (simp add: run_job_def Let_def eff split: option.splits timer.splits)

theorem run_job_constructor_error_witness:
  "snd (new_job_runner broken_runner_env) = Some (Err ''no temporary file'')
   \<and> stopping (final (run_job broken_runner_env example_job started_worker)) = stopping started_worker
   \<and> idleTimer (final (run_job broken_runner_env example_job started_worker)) = idleTimer started_worker
   \<and> last (effects (final (run_job broken_runner_env example_job started_worker))) =
        Log ErrorLevel ''Failed to initialize job: %s'' [ArgErr (Err ''no temporary file'')]"
  using run_job_constructor_error [of broken_runner_env "Err ''no temporary file''" example_job
      started_worker]
  by (simp add: broken_runner_env_def job_env_def)

text \<open>
  C4, as stated, fails. With \<^verbatim>\<open>DisconnectAfterJob\<close> set and an idle timeout of 30 seconds, the
  worker, after the job, initiates the graceful \<^verbatim>\<open>Stop\<close> and then resets the idle timer.
\<close>

theorem after_job_counterexample:
  "DisconnectAfterJob (conf started_worker)
   \<and> 0 <s DisconnectAfterIdleTimeout (conf started_worker)
   \<and> returned (Ping job_env started_worker)
   \<and> jobRunner job_done_worker = None
   \<and> drop (length (effects job_done_worker) - 7) (effects job_done_worker) =
        [Log InfoLevel ''Job finished. Disconnecting...'' [],
         TimerStop TheDisconnectTimeoutTimer,
         Log InfoLevel ''Gracefully stopping agent. Since there is no job running, the agent will disconnect immediately'' [],
         ProcTitle ''stopping'',
         CloseStop,
         Log InfoLevel ''Job finished. Resetting idle timer...'' [],
         TimerReset TheIdleTimer 30000000000]"
  by (simp add: job_done_worker_def job_env_def no_ping_def example_job_def
      started example_worker_def NewAgentWorker_def example_agent_def example_conf_def
      Ping_def switch_endpoint_def accept_and_run_def retry_Do_def retry_attempts_numeral
      accept_attempt_def run_job_def after_job_def Stop_def env_get_def Unix_def
      Let_def eff NewAPIClient_def word_eval)

text \<open>
  C4, amended. After a job has run and \<^verbatim>\<open>jobRunner\<close> is cleared: if \<^verbatim>\<open>DisconnectAfterJob\<close>
  is set the worker initiates a graceful \<^verbatim>\<open>Stop\<close>; then, whether or not
  \<^verbatim>\<open>DisconnectAfterJob\<close> is set, if \<^verbatim>\<open>DisconnectAfterIdleTimeout\<close> is positive the idle timer
  is reset to its full duration, and otherwise it is left alone. The result is given in
  full. With \<^verbatim>\<open>DisconnectAfterJob\<close> the effects are the log line, the stop of the disconnect
  timer if there is one, and those of \<^verbatim>\<open>Stop(true)\<close>: its warning if the worker was already
  stopping, and otherwise its graceful log line, the process title and the close of the
  stop channel, with \<^verbatim>\<open>stopping\<close> set; no \<^verbatim>\<open>Cancel\<close> is among them. With a positive idle
  timeout the log line and the reset follow, and a worker without an idle timer panics at
  the reset. No other field changes.
\<close>

theorem after_job_policies:
  assumes "stop a = (if stopping a then Closed else Open)"
  shows "after_job a =
     (let a3 =
        (if DisconnectAfterJob (conf a) then
           a\<lparr>disconnectTimeoutTimer :=
                (case disconnectTimeoutTimer a of
                   None \<Rightarrow> None
                 | Some (Timer d r) \<Rightarrow> Some (Timer d False)),
              stop := Closed,
              stopping := True,
              effects := effects a
                @ [Log InfoLevel ''Job finished. Disconnecting...'' []]
                @ (case disconnectTimeoutTimer a of
                     None \<Rightarrow> []
                   | Some t \<Rightarrow> [TimerStop TheDisconnectTimeoutTimer])
                @ (if stopping a then
                     [Log WarnLevel ''Agent is already gracefully stopping...'' []]
                   else
                     [Log InfoLevel
                        (if jobRunner a \<noteq> None then
                           ''Gracefully stopping agent. Waiting for current job to finish before disconnecting...''
                         else
                           ''Gracefully stopping agent. Since there is no job running, the agent will disconnect immediately'')
                        [],
                      ProcTitle ''stopping'',
                      CloseStop])\<rparr>
         else a);
          a4 = a3\<lparr>effects := effects a3 @ [Log InfoLevel ''Job finished. Resetting idle timer...'' []]\<rparr>
      in if 0 <s DisconnectAfterIdleTimeout (conf a) then
           (case idleTimer a of
              None \<Rightarrow> Panic NilPointerDereference a4
            | Some t \<Rightarrow>
                Return ()
                  (a4\<lparr>idleTimer := Some (Timer (seconds (DisconnectAfterIdleTimeout (conf a))) True),
                      effects := effects a4
                        @ [TimerReset TheIdleTimer (seconds (DisconnectAfterIdleTimeout (conf a)))]\<rparr>))
         else Return () a3)"
proof -
  define a2 where "a2 =
     (case disconnectTimeoutTimer (logger InfoLevel ''Job finished. Disconnecting...'' [] a) of
        None \<Rightarrow> logger InfoLevel ''Job finished. Disconnecting...'' [] a
      | Some (Timer d r) \<Rightarrow>
          (emit (TimerStop TheDisconnectTimeoutTimer)
             (logger InfoLevel ''Job finished. Disconnecting...'' [] a))
            \<lparr>disconnectTimeoutTimer := Some (Timer d False)\<rparr>)"
  have a2: "a2 = a\<lparr>disconnectTimeoutTimer :=
                (case disconnectTimeoutTimer a of
                   None \<Rightarrow> None
                 | Some (Timer d r) \<Rightarrow> Some (Timer d False)),
              effects := effects a
                @ [Log InfoLevel ''Job finished. Disconnecting...'' []]
                @ (case disconnectTimeoutTimer a of
                     None \<Rightarrow> []
                   | Some t \<Rightarrow> [TimerStop TheDisconnectTimeoutTimer])\<rparr>"
    by (simp add: a2_def eff split: option.splits timer.splits)
  have s2: "stop a2 = (if stopping a2 then Closed else Open)"
    using assms by (simp add: a2)
  define a3 where "a3 = (if DisconnectAfterJob (conf a) then final (Stop True a2) else a)"
  have pre: "(if DisconnectAfterJob (conf a) then Stop True a2 else Return () a) = Return () a3"
    by (simp add: a3_def Stop_graceful [OF s2])
  have a3: "a3 = (if DisconnectAfterJob (conf a) then
           a\<lparr>disconnectTimeoutTimer :=
                (case disconnectTimeoutTimer a of
                   None \<Rightarrow> None
                 | Some (Timer d r) \<Rightarrow> Some (Timer d False)),
              stop := Closed,
              stopping := True,
              effects := effects a
                @ [Log InfoLevel ''Job finished. Disconnecting...'' []]
                @ (case disconnectTimeoutTimer a of
                     None \<Rightarrow> []
                   | Some t \<Rightarrow> [TimerStop TheDisconnectTimeoutTimer])
                @ (if stopping a then
                     [Log WarnLevel ''Agent is already gracefully stopping...'' []]
                   else
                     [Log InfoLevel
                        (if jobRunner a \<noteq> None then
                           ''Gracefully stopping agent. Waiting for current job to finish before disconnecting...''
                         else
                           ''Gracefully stopping agent. Since there is no job running, the agent will disconnect immediately'')
                        [],
                      ProcTitle ''stopping'',
                      CloseStop])\<rparr>
         else a)"
  proof (cases "DisconnectAfterJob (conf a)")
    case False
    then show ?thesis by (simp add: a3_def)
  next
    case True
    have f: "stopping a2 = stopping a" "jobRunner a2 = jobRunner a"
      by (simp_all add: a2)
    from True have "a3 = final (Stop True a2)" by (simp add: a3_def)
    also have "\<dots> = (if stopping a then
          a2\<lparr>effects := effects a2 @ [Log WarnLevel ''Agent is already gracefully stopping...'' []]\<rparr>
        else
          a2\<lparr>stop := Closed, stopping := True,
            effects := effects a2 @
              [Log InfoLevel
                 (if jobRunner a \<noteq> None then
                    ''Gracefully stopping agent. Waiting for current job to finish before disconnecting...''
                  else
                    ''Gracefully stopping agent. Since there is no job running, the agent will disconnect immediately'')
                 [],
               ProcTitle ''stopping'',
               CloseStop]\<rparr>)"
      unfolding Stop_graceful [OF s2] f by simp
    finally show ?thesis using True assms by (cases "stopping a") (simp_all add: a2)
  qed
  have c3: "conf a3 = conf a" "idleTimer a3 = idleTimer a"
    by (simp_all add: a3)
  have unfold: "after_job a =
      (if 0 <s DisconnectAfterIdleTimeout (conf a3) then
         (case idleTimer (logger InfoLevel ''Job finished. Resetting idle timer...'' [] a3) of
            None \<Rightarrow>
              Panic NilPointerDereference
                (logger InfoLevel ''Job finished. Resetting idle timer...'' [] a3)
          | Some t \<Rightarrow>
              Return ()
                ((emit (TimerReset TheIdleTimer (seconds (DisconnectAfterIdleTimeout (conf a3))))
                    (logger InfoLevel ''Job finished. Resetting idle timer...'' [] a3))
                   \<lparr>idleTimer := Some (Timer (seconds (DisconnectAfterIdleTimeout (conf a3))) True)\<rparr>))
       else Return () a3)"
    unfolding after_job_def Let_def a2_def [symmetric] pre
    by (simp add: eff split: option.splits)
  have "after_job a =
      (if 0 <s DisconnectAfterIdleTimeout (conf a) then
           (case idleTimer a of
              None \<Rightarrow> Panic NilPointerDereference (a3\<lparr>effects := effects a3 @ [Log InfoLevel ''Job finished. Resetting idle timer...'' []]\<rparr>)
            | Some t \<Rightarrow>
                Return ()
                  (a3\<lparr>idleTimer := Some (Timer (seconds (DisconnectAfterIdleTimeout (conf a))) True),
                      effects := (effects a3 @ [Log InfoLevel ''Job finished. Resetting idle timer...'' []])
                        @ [TimerReset TheIdleTimer (seconds (DisconnectAfterIdleTimeout (conf a)))]\<rparr>))
         else Return () a3)"
    unfolding unfold by (simp add: eff c3 split: option.splits)
  then show ?thesis unfolding Let_def a3 [symmetric] by (simp split: option.splits)
qed

theorem after_job_policies_witness:
  "stop started_worker = (if stopping started_worker then Closed else Open)
   \<and> after_job started_worker =
       Return ()
         (started_worker
            \<lparr>disconnectTimeoutTimer := Some (Timer 60000000000 False),
             idleTimer := Some (Timer 30000000000 True),
             stop := Closed,
             stopping := True,
             effects := effects started_worker @
               [Log InfoLevel ''Job finished. Disconnecting...'' [],
                TimerStop TheDisconnectTimeoutTimer,
                Log InfoLevel ''Gracefully stopping agent. Since there is no job running, the agent will disconnect immediately'' [],
                ProcTitle ''stopping'',
                CloseStop,
                Log InfoLevel ''Job finished. Resetting idle timer...'' [],
                TimerReset TheIdleTimer 30000000000]\<rparr>)
   \<and> stop plain_worker = (if stopping plain_worker then Closed else Open)
   \<and> after_job plain_worker = Return () plain_worker"
proof -
  have s: "stop started_worker = (if stopping started_worker then Closed else Open)"
    by (simp add: started example_worker_def NewAgentWorker_def)
  have p: "stop plain_worker = (if stopping plain_worker then Closed else Open)"
    by (simp add: plain_worker_def plain_conf_def Start_init_def NewAgentWorker_def
        example_agent_def example_conf_def Let_def eff word_eval)
  have c: "\<not> DisconnectAfterJob (conf plain_worker)"
    "\<not> 0 <s DisconnectAfterIdleTimeout (conf plain_worker)"
    by (simp_all add: plain_worker_def plain_conf_def Start_init_def NewAgentWorker_def
        example_agent_def example_conf_def Let_def eff word_eval)
  have "after_job plain_worker = Return () plain_worker"
    unfolding after_job_policies [OF p] Let_def using c by simp
  moreover have "after_job started_worker =
       Return ()
         (started_worker
            \<lparr>disconnectTimeoutTimer := Some (Timer 60000000000 False),
             idleTimer := Some (Timer 30000000000 True),
             stop := Closed,
             stopping := True,
             effects := effects started_worker @
               [Log InfoLevel ''Job finished. Disconnecting...'' [],
                TimerStop TheDisconnectTimeoutTimer,
                Log InfoLevel ''Gracefully stopping agent. Since there is no job running, the agent will disconnect immediately'' [],
                ProcTitle ''stopping'',
                CloseStop,
                Log InfoLevel ''Job finished. Resetting idle timer...'' [],
                TimerReset TheIdleTimer 30000000000]\<rparr>)"
    unfolding after_job_policies [OF s] Let_def
    by (simp add: started example_worker_def NewAgentWorker_def example_conf_def word_eval)
  ultimately show ?thesis using s p by simp
qed

text \<open>
  C5, as stated, fails. A forceful \<^verbatim>\<open>Stop\<close> on a worker that is already stopping and has a
  job runner calls \<^verbatim>\<open>Cancel\<close> after the stop channel was closed: the close was made by the
  earlier, graceful call. And if \<^verbatim>\<open>NewJobRunner\<close> returns a job runner together with an
  error, \<^verbatim>\<open>jobRunner\<close> keeps that runner, \<^verbatim>\<open>Start\<close> can return after a graceful \<^verbatim>\<open>Stop\<close>, and
  a forceful \<^verbatim>\<open>Stop\<close> called then finds the runner and calls \<^verbatim>\<open>Cancel\<close> after \<^verbatim>\<open>Start\<close> has
  returned.
\<close>

theorem Stop_forceful_counterexample:
  "jobRunner stopping_worker = Some (MkJobRunner 1)
   \<and> effects (final (Stop False stopping_worker)) =
       [Log InfoLevel ''Gracefully stopping agent. Waiting for current job to finish before disconnecting...'' [],
        ProcTitle ''stopping'',
        CloseStop,
        Log InfoLevel ''Forcefully stopping agent. The current job will be canceled before disconnecting...'' [],
        Cancel (MkJobRunner 1)]
   \<and> Start stale_run example_worker = Done (Return None left_worker)
   \<and> jobRunner left_worker = Some (MkJobRunner 7)
   \<and> drop (length (effects left_worker) - 2) (effects left_worker) = [TickerStop, MetricsStop]
   \<and> effects (final (Stop False left_worker)) =
       effects left_worker @
       [Log InfoLevel ''Forcefully stopping agent. The current job will be canceled before disconnecting...'' [],
        Cancel (MkJobRunner 7)]"
  by (simp add: stopping_worker_def busy_worker_def left_worker_def stale_run_def
      stale_runner_env_def job_env_def no_ping_def example_job_def
      Start_def Start_init_def example_worker_def NewAgentWorker_def
      example_agent_def example_conf_def
      Ping_def switch_endpoint_def accept_and_run_def retry_Do_def retry_attempts_numeral
      accept_attempt_def run_job_def Stop_def env_get_def Unix_def halted_def
      Let_def eff NewAPIClient_def word_eval)

text \<open>
  C5, amended. A forceful \<^verbatim>\<open>Stop\<close> that finds a job runner calls \<^verbatim>\<open>Cancel\<close> on it, and
  before that call closes the stop channel: of the call's effects the log line and the
  \<^verbatim>\<open>Cancel\<close> come first, and the process title and the close follow only when the worker
  was not yet stopping (otherwise an earlier call has closed the channel). And in a run of
  \<^verbatim>\<open>Start\<close> on a new worker: if at some turn of the ping loop, begun with the worker not
  stopping, \<^verbatim>\<open>Ping\<close> calls \<^verbatim>\<open>Run\<close> on the runner \<^verbatim>\<open>NewJobRunner\<close> returned, and another task
  calls \<^verbatim>\<open>Stop(false)\<close> while \<^verbatim>\<open>Run\<close> blocks, then, if \<^verbatim>\<open>Start\<close> returns, the effects since
  the start of that turn have the \<^verbatim>\<open>Run\<close>, later \<^verbatim>\<open>Cancel\<close> on that runner, and at the end the
  stop of the ticker and of the metrics collector, with which \<^verbatim>\<open>Start\<close> returns.
\<close>

theorem Stop_forceful_cancels:
  "(jobRunner a = Some r \<longrightarrow>
      effects (final (Stop False a)) =
        effects a @
        [Log InfoLevel ''Forcefully stopping agent. The current job will be canceled before disconnecting...'' [],
         Cancel r] @
        (if stopping a then []
         else ProcTitle ''stopping'' # (if stop a = Open then [CloseStop] else [])))
   \<and> (collector_start env = None
        \<and> rounds env = rs1 @ rd # rs2
        \<and> Start_loop rs1 (final (Start_init (emit MetricsStart (NewAgentWorker ag cf)))) = Waiting w
        \<and> \<not> stopping w
        \<and> fst (new_job_runner (ping_env rd)) = Some r
        \<and> Run r \<in> set (drop (length (effects w)) (effects (final (Ping (ping_env rd) w))))
        \<and> CallStop False \<in> set (during_run (ping_env rd))
        \<and> Start env (NewAgentWorker ag cf) = Done (Return e b)
      \<longrightarrow> (\<exists>pre mid post.
             effects b =
               effects w @ pre @ Run r # mid @ Cancel r # post @ [TickerStop, MetricsStop]))"
proof (intro conjI impI)
  assume "jobRunner a = Some r"
  then show "effects (final (Stop False a)) =
        effects a @
        [Log InfoLevel ''Forcefully stopping agent. The current job will be canceled before disconnecting...'' [],
         Cancel r] @
        (if stopping a then []
         else ProcTitle ''stopping'' # (if stop a = Open then [CloseStop] else []))"
    by (cases "stop a") (simp_all add: Stop_def Let_def eff)
next
  let ?m = "emit MetricsStart (NewAgentWorker ag cf)"
  assume h: "collector_start env = None
        \<and> rounds env = rs1 @ rd # rs2
        \<and> Start_loop rs1 (final (Start_init ?m)) = Waiting w
        \<and> \<not> stopping w
        \<and> fst (new_job_runner (ping_env rd)) = Some r
        \<and> Run r \<in> set (drop (length (effects w)) (effects (final (Ping (ping_env rd) w))))
        \<and> CallStop False \<in> set (during_run (ping_env rd))
        \<and> Start env (NewAgentWorker ag cf) = Done (Return e b)"
  have m: "stop ?m = Open" "\<not> stopping ?m" "closes ?m = 0"
    by (simp_all add: NewAgentWorker_def eff closes_def)
  from h obtain a1 where a1: "Start_init ?m = Return () a1"
    by (cases "Start_init ?m") (auto simp add: Start_def)
  with Start_init_sound [OF m] have s1: "sound a1" by simp
  from h a1 have w: "Start_loop rs1 a1 = Waiting w" by simp
  with loop_sound [OF s1, of rs1] have sw: "sound w" by simp
  from loop_split [OF w, of "rd # rs2"] h
  have l: "Start_loop (rounds env) a1 = Start_loop (rd # rs2) w" by simp
  from h a1 l have "Start_loop (rd # rs2) w = Done (Return e (final (case Start_loop (rd # rs2) w of Done out \<Rightarrow> out)))
      \<and> b = emit MetricsStop (final (case Start_loop (rd # rs2) w of Done out \<Rightarrow> out))"
    by (auto simp add: Start_def split: run.splits outcome.splits)
  then obtain b2 where b2: "Start_loop (rd # rs2) w = Done (Return e b2)"
    and b: "b = emit MetricsStop b2"
    by blast
  from h have t: "\<not> stopping w" "fst (new_job_runner (ping_env rd)) = Some r"
    "CallStop False \<in> set (during_run (ping_env rd))"
    "Run r \<in> set (drop (length (effects w)) (effects (final (Ping (ping_env rd) w))))"
    by simp_all
  from turn_cancels [OF sw t(1) t(2) t(3) t(4) b2] obtain pre mid post
    where "effects b2 = effects w @ pre @ Run r # mid @ Cancel r # post @ [TickerStop]" by blast
  with b have "effects b = effects w @ pre @ Run r # mid @ Cancel r # post @ [TickerStop, MetricsStop]"
    by (simp add: eff)
  then show "\<exists>pre mid post.
             effects b =
               effects w @ pre @ Run r # mid @ Cancel r # post @ [TickerStop, MetricsStop]"
    by blast
qed

theorem Stop_forceful_cancels_witness:
  "jobRunner running_worker = Some (MkJobRunner 1)
   \<and> drop (length (effects running_worker)) (effects (final (Stop False running_worker))) =
       [Log InfoLevel ''Forcefully stopping agent. The current job will be canceled before disconnecting...'' [],
        Cancel (MkJobRunner 1), ProcTitle ''stopping'', CloseStop]
   \<and> collector_start cancelled_run = None
   \<and> rounds cancelled_run = [idle_round] @ cancelled_round # []
   \<and> Start_loop [idle_round] (final (Start_init (emit MetricsStart (NewAgentWorker example_agent example_conf))))
        = Waiting turn_worker
   \<and> \<not> stopping turn_worker
   \<and> fst (new_job_runner (ping_env cancelled_round)) = Some (MkJobRunner 1)
   \<and> Run (MkJobRunner 1)
        \<in> set (drop (length (effects turn_worker))
                 (effects (final (Ping (ping_env cancelled_round) turn_worker))))
   \<and> CallStop False \<in> set (during_run (ping_env cancelled_round))
   \<and> Start cancelled_run (NewAgentWorker example_agent example_conf) =
        Done (Return None (state_of (Start cancelled_run example_worker)))
   \<and> (\<exists>pre mid post.
         effects (state_of (Start cancelled_run example_worker)) =
           effects turn_worker @ pre @ Run (MkJobRunner 1) # mid @ Cancel (MkJobRunner 1) # post
             @ [TickerStop, MetricsStop])"
proof -
  have j: "jobRunner running_worker = Some (MkJobRunner 1)"
    and s: "stop running_worker = Open" "\<not> stopping running_worker"
    by (simp_all add: running_worker_def started example_worker_def NewAgentWorker_def)
  have c: "collector_start cancelled_run = None"
    "rounds cancelled_run = [idle_round] @ cancelled_round # []"
    "fst (new_job_runner (ping_env cancelled_round)) = Some (MkJobRunner 1)"
    "CallStop False \<in> set (during_run (ping_env cancelled_round))"
    by (simp_all add: cancelled_run_def cancelled_round_def job_env_def)
  have l: "Start_loop [idle_round] (final (Start_init (emit MetricsStart (NewAgentWorker example_agent example_conf))))
        = Waiting turn_worker"
    by (simp add: turn_worker_def idle_round_def job_env_def no_ping_def
      Start_init_def example_worker_def NewAgentWorker_def
      example_agent_def example_conf_def
      Ping_def switch_endpoint_def Unix_def
      Let_def eff NewAPIClient_def word_eval)
  have w: "\<not> stopping turn_worker"
    by (simp add: turn_worker_def idle_round_def job_env_def no_ping_def
      Start_init_def example_worker_def NewAgentWorker_def
      example_agent_def example_conf_def
      Ping_def switch_endpoint_def Unix_def
      Let_def eff NewAPIClient_def word_eval)
  have p: "Run (MkJobRunner 1)
        \<in> set (drop (length (effects turn_worker))
                 (effects (final (Ping (ping_env cancelled_round) turn_worker))))"
    by (simp add: turn_worker_def cancelled_round_def idle_round_def job_env_def no_ping_def example_job_def
      Start_init_def example_worker_def NewAgentWorker_def
      example_agent_def example_conf_def
      Ping_def switch_endpoint_def accept_and_run_def retry_Do_def retry_attempts_numeral
      accept_attempt_def run_job_def after_job_def Stop_def env_get_def Unix_def
      Let_def eff NewAPIClient_def word_eval)
  have r: "Start cancelled_run (NewAgentWorker example_agent example_conf) =
        Done (Return None (state_of (Start cancelled_run example_worker)))"
    by (simp add: cancelled_run_def cancelled_round_def idle_round_def job_env_def no_ping_def example_job_def
      Start_def Start_init_def example_worker_def NewAgentWorker_def
      example_agent_def example_conf_def
      Ping_def switch_endpoint_def accept_and_run_def retry_Do_def retry_attempts_numeral
      accept_attempt_def run_job_def after_job_def Stop_def env_get_def Unix_def halted_def
      Let_def eff NewAPIClient_def word_eval)
  note t = Stop_forceful_cancels [of running_worker "MkJobRunner 1" cancelled_run "[idle_round]"
      cancelled_round "[]" example_agent example_conf turn_worker None
      "state_of (Start cancelled_run example_worker)"]
  from t j s have "drop (length (effects running_worker)) (effects (final (Stop False running_worker))) =
       [Log InfoLevel ''Forcefully stopping agent. The current job will be canceled before disconnecting...'' [],
        Cancel (MkJobRunner 1), ProcTitle ''stopping'', CloseStop]"
    by simp
  moreover from t c l w p r have "\<exists>pre mid post.
         effects (state_of (Start cancelled_run example_worker)) =
           effects turn_worker @ pre @ Run (MkJobRunner 1) # mid @ Cancel (MkJobRunner 1) # post
             @ [TickerStop, MetricsStop]"
    by blast
  ultimately show ?thesis using j c l w p r by blast
qed

text \<open>
  C6. A \<^verbatim>\<open>Ping\<close> whose \<^verbatim>\<open>Pings.Get\<close> fails, on a worker that has a disconnect timer, resets
  that timer to \<^verbatim>\<open>DisconnectAfterJobTimeout\<close> seconds and returns: beyond the two log lines
  and the reset it has no effect, and no other field of the worker changes. The duration
  is the one \<^verbatim>\<open>Start\<close> arms the timer with, and it is the number of seconds times
  1000000000 nanoseconds as long as that fits \<^verbatim>\<open>int64\<close>.
\<close>

theorem Ping_failure_resets_timer:
  assumes "pings_get env = Inl err" and "disconnectTimeoutTimer a \<noteq> None"
  shows "Ping env a = Return ()
           (a\<lparr>disconnectTimeoutTimer :=
                 Some (Timer (seconds (DisconnectAfterJobTimeout (conf a))) True),
               effects := effects a @
                 [ProcTitle ''pinging'', PingsGet (apiClient a),
                  Log WarnLevel ''Failed to ping: %s (Last successful was %v ago)''
                    [ArgErr err, ArgDur (Sub (now env) (time_Unix (lastPing a)))],
                  TimerReset TheDisconnectTimeoutTimer (seconds (DisconnectAfterJobTimeout (conf a))),
                  Log DebugLevel
                    ''[DisconnectionTimer] Reset back to %d seconds because of ping failure...''
                    [ArgInt (DisconnectAfterJobTimeout (conf a))]]\<rparr>)
         \<and> (DisconnectAfterJob (conf w) \<and> returned (Start_init w) \<longrightarrow>
              disconnectTimeoutTimer (final (Start_init w)) =
                Some (Timer (seconds (DisconnectAfterJobTimeout (conf w))) True))
         \<and> (0 \<le> sint (DisconnectAfterJobTimeout (conf a))
              \<and> sint (DisconnectAfterJobTimeout (conf a)) \<le> 9223372036 \<longrightarrow>
              sint (seconds (DisconnectAfterJobTimeout (conf a))) =
                sint (DisconnectAfterJobTimeout (conf a)) * 1000000000)"
proof -
  have "Ping env a = Return ()
           (a\<lparr>disconnectTimeoutTimer :=
                 Some (Timer (seconds (DisconnectAfterJobTimeout (conf a))) True),
               effects := effects a @
                 [ProcTitle ''pinging'', PingsGet (apiClient a),
                  Log WarnLevel ''Failed to ping: %s (Last successful was %v ago)''
                    [ArgErr err, ArgDur (Sub (now env) (time_Unix (lastPing a)))],
                  TimerReset TheDisconnectTimeoutTimer (seconds (DisconnectAfterJobTimeout (conf a))),
                  Log DebugLevel
                    ''[DisconnectionTimer] Reset back to %d seconds because of ping failure...''
                    [ArgInt (DisconnectAfterJobTimeout (conf a))]]\<rparr>)"
    using assms by (simp add: Ping_def ping_failed_def Let_def eff)
  moreover have "DisconnectAfterJob (conf w) \<and> returned (Start_init w) \<longrightarrow>
              disconnectTimeoutTimer (final (Start_init w)) =
                Some (Timer (seconds (DisconnectAfterJobTimeout (conf w))) True)"
    by (simp add: Start_init_def Let_def eff)
  ultimately show ?thesis using seconds_exact by blast
qed

theorem Ping_failure_resets_timer_witness:
  "pings_get failing_env = Inl (Err ''connection refused'')
   \<and> disconnectTimeoutTimer started_worker \<noteq> None
   \<and> DisconnectAfterJob (conf example_worker) \<and> returned (Start_init example_worker)
   \<and> 0 \<le> sint (DisconnectAfterJobTimeout (conf started_worker))
   \<and> sint (DisconnectAfterJobTimeout (conf started_worker)) \<le> 9223372036
   \<and> disconnectTimeoutTimer (final (Start_init example_worker)) = Some (Timer 60000000000 True)
   \<and> disconnectTimeoutTimer (final (Ping failing_env started_worker)) =
        Some (Timer 60000000000 True)
   \<and> last (effects (final (Ping failing_env started_worker))) =
        Log DebugLevel ''[DisconnectionTimer] Reset back to %d seconds because of ping failure...''
          [ArgInt 60]"
proof -
  have h1: "pings_get failing_env = Inl (Err ''connection refused'')"
    by (simp add: failing_env_def job_env_def)
  have h2: "disconnectTimeoutTimer started_worker \<noteq> None"
    by (simp add: started)
  have c: "DisconnectAfterJobTimeout (conf started_worker) = 60"
    "DisconnectAfterJobTimeout (conf example_worker) = 60"
    "DisconnectAfterJob (conf example_worker)"
    by (simp_all add: started example_worker_def NewAgentWorker_def example_conf_def Let_def)
  have r: "returned (Start_init example_worker)"
    by (simp add: Start_init_def example_worker_def NewAgentWorker_def example_agent_def
        Let_def word_eval)
  have s: "seconds 60 = 60000000000"
    by (simp add: seconds_def Second_def)
  from Ping_failure_resets_timer [OF h1 h2, of example_worker]
  show ?thesis using h1 h2 c r s by simp
qed

text \<open>
  C7 fails on the code: the duration in the log line of a failed heartbeat is counted from
  \<^verbatim>\<open>lastPing\<close>, the time of the last successful ping, although the source's comment and
  the name of its local say the last heartbeat.
\<close>

theorem heartbeat_failure_elapsed:
  assumes "Heartbeat env a = Return (Some err) a1"
  shows "heartbeat_due env a = Return ()
           (logger ErrorLevel
              ''Failed to heartbeat %s. Will try again in %s. (Last successful was %v ago)''
              [ArgErr err, ArgDur (seconds (HeartbeatInterval (agent a))),
               ArgDur (Sub (hb_now env) (time_Unix (lastPing a)))]
              a1)"
proof -
  from steady_Heartbeat [of a env] assms have "lastPing a1 = lastPing a"
    by (simp add: steady_def)
  with assms show ?thesis by (simp add: heartbeat_due_def Let_def)
qed

theorem heartbeat_failure_elapsed_witness:
  "Heartbeat failing_heartbeats pinged_worker =
     Return (Some (Err ''timeout'')) (final (Heartbeat failing_heartbeats pinged_worker))
   \<and> lastPing pinged_worker = 100 \<and> lastHeartbeat pinged_worker = 250
   \<and> last (effects (final (heartbeat_due failing_heartbeats pinged_worker))) =
        Log ErrorLevel
          ''Failed to heartbeat %s. Will try again in %s. (Last successful was %v ago)''
          [ArgErr (Err ''timeout''), ArgDur 60000000000, ArgDur 160000000000]
   \<and> Sub (hb_now failing_heartbeats) (time_Unix (lastHeartbeat pinged_worker)) = 10000000000"
proof -
  have h: "Heartbeat failing_heartbeats pinged_worker =
     Return (Some (Err ''timeout'')) (final (Heartbeat failing_heartbeats pinged_worker))"
    by (simp add: Heartbeat_def retry_Do_def retry_attempts_numeral beat_attempt_def
        failing_heartbeats_def Let_def eff)
  show ?thesis
    using heartbeat_failure_elapsed [OF h] h
    by (simp add: failing_heartbeats_def pinged_worker_def example_worker_def NewAgentWorker_def
        example_agent_def Let_def eff Sub_def time_Unix_def seconds_def Second_def)
qed

text \<open>
  C8, as stated, fails: with a ping interval of 0, \<^verbatim>\<open>Start\<close> panics in \<^verbatim>\<open>time.NewTicker\<close>.
\<close>

theorem Start_zero_ping_interval_counterexample:
  "PingInterval zero_ping_agent = 0
   \<and> Start \<lparr>collector_start = None, rounds = [idle_round]\<rparr>
        (NewAgentWorker zero_ping_agent example_conf) =
      Done (Panic NonPositiveTickerInterval
        ((NewAgentWorker zero_ping_agent example_conf)
           \<lparr>running := True, effects := [MetricsStart, MetricsStop]\<rparr>))"
  by (simp add: Start_def Start_init_def NewAgentWorker_def zero_ping_agent_def example_agent_def
      Let_def eff word_eval)

text \<open>
  C8, amended. On a new worker whose descriptor's ping interval makes a positive
  duration, \<^verbatim>\<open>Start\<close> does not panic, whatever the heartbeat interval, 0 included, and
  under any schedule in which \<^verbatim>\<open>NewJobRunner\<close> keeps its contract. A heartbeat interval of
  0 is not taken as "do not schedule": the heartbeat goroutine is started all the same.
\<close>

theorem Start_does_not_panic:
  assumes "0 <s seconds (PingInterval ag)"
    and "\<forall>r\<in>set (rounds env). runner_contract (ping_env r)"
  shows "\<not> panicked (Start env (NewAgentWorker ag c))
         \<and> Heartbeater \<in> set (tasks (final (Start_init (NewAgentWorker ag c))))"
proof -
  have n: "stop (NewAgentWorker ag c) = Open" "\<not> stopping (NewAgentWorker ag c)"
    "closes (NewAgentWorker ag c) = 0" "agent (NewAgentWorker ag c) = ag"
    by (simp_all add: NewAgentWorker_def Let_def closes_def)
  have "\<not> panicked (Start env (NewAgentWorker ag c))"
    using Start_safe [OF n(1) n(2) n(3) _ assms(2)] assms(1) n(4) by simp
  moreover have "Heartbeater \<in> set (tasks (final (Start_init (NewAgentWorker ag c))))"
    using assms(1) n(4) by (simp add: Start_init_def Let_def eff word_sle_eq word_sless_alt)
  ultimately show ?thesis by simp
qed

theorem Start_does_not_panic_witness:
  "HeartbeatInterval zero_heartbeat_agent = 0
   \<and> 0 <s seconds (PingInterval zero_heartbeat_agent)
   \<and> runner_contract (ping_env idle_round) \<and> runner_contract (ping_env job_round)
   \<and> \<not> panicked (Start one_job (NewAgentWorker zero_heartbeat_agent example_conf))
   \<and> tasks (final (Start_init (NewAgentWorker zero_heartbeat_agent example_conf))) =
        [Heartbeater, DisconnectWatcher, IdleWatcher]"
  using Start_does_not_panic [of zero_heartbeat_agent one_job example_conf]
  by (simp add: one_job_def idle_round_def job_round_def job_env_def runner_contract_def
      zero_heartbeat_agent_def example_agent_def example_conf_def Start_init_def
      NewAgentWorker_def Let_def eff word_eval)



text \<open>
  C10. After an endpoint switch whose probe succeeds, the worker's client is the one made
  for the new endpoint with the descriptor's access token and without \<^verbatim>\<open>DisableHTTP2\<close>
  (so with Go's zero value, false), whatever the rest of the ping does; the probe itself
  was sent through that client. The client \<^verbatim>\<open>NewAgentWorker\<close> makes carries the
  configuration's \<^verbatim>\<open>DisableHTTP2\<close>.
\<close>

theorem switch_drops_DisableHTTP2:
  assumes "pings_get env = Inr ping" and "Ping_Endpoint ping \<noteq> []"
    and "Ping_Endpoint ping \<noteq> Agent_Endpoint (agent a)" and "probe_get env = Inr newPing"
  shows "apiClient (final (Ping env a)) =
           \<lparr>Endpoint = Ping_Endpoint ping, Token = AccessToken (agent a), DisableHTTP2 = False\<rparr>
         \<and> PingsGet \<lparr>Endpoint = Ping_Endpoint ping, Token = AccessToken (agent a),
                      DisableHTTP2 = False\<rparr> \<in> set (effects (final (Ping env a)))
         \<and> DisableHTTP2 (apiClient (NewAgentWorker ag c)) = Conf_DisableHTTP2 c
         \<and> Token (apiClient (NewAgentWorker ag c)) = AccessToken ag"
proof -
  let ?a2 = "(emit (PingsGet (apiClient a)) (UpdateProcTitle ''pinging'' a))\<lparr>lastPing := Unix (now env)\<rparr>"
  let ?new = "\<lparr>Endpoint = Ping_Endpoint ping, Token = AccessToken (agent a), DisableHTTP2 = False\<rparr>"
  have sw: "apiClient (snd (switch_endpoint env ping ?a2)) = ?new"
    using assms by (simp add: switch_endpoint_def Let_def eff NewAPIClient_def)
  have probe: "PingsGet ?new \<in> set (effects (snd (switch_endpoint env ping ?a2)))"
    using assms by (simp add: switch_endpoint_def Let_def eff NewAPIClient_def)
  have client: "apiClient (final (Ping env a)) = ?new"
    using Ping_keeps_client [OF assms(1), of a] sw by simp
  have "quiet (snd (switch_endpoint env ping ?a2)) (final (Ping env a))"
  proof -
    let ?ping = "fst (switch_endpoint env ping ?a2)"
    let ?a3 = "snd (switch_endpoint env ping ?a2)"
    let ?a4 = "(if Message ?ping \<noteq> [] then logger InfoLevel (Message ?ping) [] ?a3 else ?a3)"
    have s4: "steady ?a3 ?a4" using steady_logger [OF steady_refl] by (simp add: steady_refl)
    have stop: "steady ?a3 (final (Stop False ?a4))"
      using s4 steady_Stop by (rule steady_trans)
    have idle: "steady ?a3 (UpdateProcTitle ''idle'' ?a4)"
      unfolding UpdateProcTitle_def [of "''idle''"] by (rule steady_emit [OF s4]) simp_all
    have job: "steady ?a3 (final (accept_and_run env job ?a4))" for job
      using s4 steady_accept_and_run by (rule steady_trans)
    have "steady ?a3 (final (Ping env a))"
      unfolding Ping_success [OF assms(1)] Let_def
      by (rule pick3 [where Q = "steady ?a3"]) (fact stop, fact idle, fact job)
    then show ?thesis by (rule steady_quiet)
  qed
  then obtain es where "effects (final (Ping env a)) = effects (snd (switch_endpoint env ping ?a2)) @ es"
    unfolding quiet_iff by blast
  with probe have "PingsGet ?new \<in> set (effects (final (Ping env a)))" by simp
  with client show ?thesis by (simp add: NewAgentWorker_def Let_def NewAPIClient_def)
qed

theorem switch_drops_DisableHTTP2_witness:
  "pings_get switch_env = Inr (no_ping\<lparr>Ping_Endpoint := ''https://e2''\<rparr>)
   \<and> Ping_Endpoint (no_ping\<lparr>Ping_Endpoint := ''https://e2''\<rparr>) \<noteq> []
   \<and> Ping_Endpoint (no_ping\<lparr>Ping_Endpoint := ''https://e2''\<rparr>) \<noteq> Agent_Endpoint (agent example_worker)
   \<and> probe_get switch_env = Inr (no_ping\<lparr>Message := ''welcome''\<rparr>)
   \<and> DisableHTTP2 (apiClient example_worker)
   \<and> \<not> DisableHTTP2 (apiClient (final (Ping switch_env example_worker)))"
  using switch_drops_DisableHTTP2 [of switch_env "no_ping\<lparr>Ping_Endpoint := ''https://e2''\<rparr>"
      example_worker "no_ping\<lparr>Message := ''welcome''\<rparr>" example_agent example_conf]
  by (simp add: switch_env_def job_env_def no_ping_def example_worker_def NewAgentWorker_def
      example_agent_def example_conf_def Let_def NewAPIClient_def)

end
